theory Spec2Isabelle
  imports Complex_Main "HOL-Library.Multiset" "HOL-Library.Sublist"
begin

section \<open>Data model\<close>

text \<open>
  The development embeds \<^verbatim>\<open>src/components/CourseMap.jsx\<close>. A string of the language is
  a sequence of 16-bit code units; it is a list of numbers here, and \<open>js\<close> turns an ASCII
  literal into such a list. A property of a record of the JSON data is absent, \<^verbatim>\<open>null\<close>
  or a value. Numbers that hold coordinates are real numbers. A number that comes from
  \<^verbatim>\<open>parseInt\<close> is a double whose value is an integer, an infinity or \<^verbatim>\<open>NaN\<close>.
\<close>

type_synonym code_unit = nat

type_synonym jsstring = "code_unit list"

definition js :: "string \<Rightarrow> jsstring" where
  "js s = map of_char s"

datatype 'a jsprop = Absent | Null | Val 'a

record course =
  course_number :: jsstring
  course_title :: "jsstring jsprop"
  credits :: "real jsprop"
  prerequisites :: "jsstring list jsprop"
  link :: "jsstring jsprop"

record program_entry =
  program :: jsstring
  courses :: "course list"

record position =
  pos_x :: real
  pos_y :: real

datatype jsnum = Num int | NaN | PosInfinity | NegInfinity

record programStructure_t =
  ps_courses :: "course list"
  ps_levels :: "(jsnum \<times> course list) list"

text \<open>
  What a read \<^verbatim>\<open>nodePositions[k]\<close> can give: \<^verbatim>\<open>undefined\<close>, a position object, a member that
  every object inherits (a function, or the prototype object), or a number.
\<close>

datatype jsval = Undefined | PositionObj position | Inherited | Number real

record line =
  line_id :: jsstring
  source :: jsval
  target :: jsval

section \<open>Library functions of the language\<close>

text \<open>\<^verbatim>\<open>s.split(" ")\<close>: the pieces of \<open>s\<close> between single spaces; never empty.\<close>

fun split_space :: "jsstring \<Rightarrow> jsstring list" where
  "split_space [] = [[]]"
| "split_space (c # cs) =
     (if c = 32 then [] # split_space cs
      else (case split_space cs of
              [] \<Rightarrow> [[c]]
            | w # ws \<Rightarrow> (c # w) # ws))"

text \<open>Array indexing \<^verbatim>\<open>xs[i]\<close>: \<^verbatim>\<open>undefined\<close> (here \<open>None\<close>) out of range.\<close>

fun js_index :: "'a list \<Rightarrow> nat \<Rightarrow> 'a option" where
  "js_index [] i = None"
| "js_index (x # xs) 0 = Some x"
| "js_index (x # xs) (Suc i) = js_index xs i"

text \<open>
  The white space that \<^verbatim>\<open>parseInt\<close> skips: the code units of the white space and line
  terminator characters of the language (tab, line feed, vertical tab, form feed,
  carriage return, space, no-break space, the space separators of Unicode, the line and
  paragraph separators, and the byte order mark).
\<close>

definition isWhiteSpace :: "code_unit \<Rightarrow> bool" where
  "isWhiteSpace c =
     (c \<in> {9, 10, 11, 12, 13, 32, 160, 5760, 8232, 8233, 8239, 8287, 12288, 65279}
      \<or> (8192 \<le> c \<and> c \<le> 8202))"

definition digitValue :: "code_unit \<Rightarrow> nat option" where
  "digitValue n =
     (if 48 \<le> n \<and> n \<le> 57 then Some (n - 48)
      else if 97 \<le> n \<and> n \<le> 122 then Some (n - 87)
      else if 65 \<le> n \<and> n \<le> 90 then Some (n - 55)
      else None)"

definition isDigitIn :: "nat \<Rightarrow> code_unit \<Rightarrow> bool" where
  "isDigitIn R c = (case digitValue c of None \<Rightarrow> False | Some d \<Rightarrow> d < R)"

definition digitsValue :: "nat \<Rightarrow> jsstring \<Rightarrow> int" where
  "digitsValue R Z = foldl (\<lambda>acc c. acc * int R + int (the (digitValue c))) 0 Z"

text \<open>
  Conversion of an integer to the nearest double, ties to the even significand, and
  infinity from \<open>2^1024\<close> on. An integer of magnitude below \<open>2^53\<close> is a double. (For
  a decimal numeral of more than 20 significant digits the language lets an
  implementation approximate; the nearest double is what the common engines return.)
\<close>

function bit_length :: "int \<Rightarrow> nat" where
  "bit_length n = (if n \<le> 0 then 0 else Suc (bit_length (n div 2)))"
  by pat_completeness auto
termination
  by (relation "measure nat") auto

declare bit_length.simps [simp del]

definition round_half_even :: "int \<Rightarrow> int \<Rightarrow> int" where
  "round_half_even a b =
     (let d = a div b; r = a mod b
      in if 2 * r > b \<or> (2 * r = b \<and> odd d) then d + 1 else d)"

definition nearest_double :: "int \<Rightarrow> int" where
  "nearest_double N =
     (if N < 2 ^ 53 then N
      else (let s = bit_length N - 53 in round_half_even N (2 ^ s) * 2 ^ s))"

definition double_of_int :: "int \<Rightarrow> jsnum" where
  "double_of_int z =
     (let v = nearest_double \<bar>z\<bar>
      in if v \<ge> 2 ^ 1024 then (if z < 0 then NegInfinity else PosInfinity)
         else Num (if z < 0 then - v else v))"

text \<open>
  \<^verbatim>\<open>parseInt(s)\<close> without a radix, on a string: leading white space is skipped, a sign is
  read, a prefix \<^verbatim>\<open>0x\<close> or \<^verbatim>\<open>0X\<close> selects radix 16, and the longest run of digits of the
  radix is the value, as a double; no digit gives \<^verbatim>\<open>NaN\<close>. On \<^verbatim>\<open>undefined\<close> the argument
  is first converted to the string \<^verbatim>\<open>"undefined"\<close>, which has no digit.
\<close>

definition parseInt_str :: "jsstring \<Rightarrow> jsnum" where
  "parseInt_str s =
     (let S = dropWhile isWhiteSpace s;
          sign = (if S \<noteq> [] \<and> hd S = 45 then - 1 else (1::int));
          S1 = (if S \<noteq> [] \<and> (hd S = 43 \<or> hd S = 45) then tl S else S);
          hex = (take 2 S1 = [48, 120] \<or> take 2 S1 = [48, 88]);
          R = (if hex then 16 else 10);
          S2 = (if hex then drop 2 S1 else S1);
          Z = takeWhile (isDigitIn R) S2
      in if Z = [] then NaN else double_of_int (sign * digitsValue R Z))"

definition parseInt :: "jsstring option \<Rightarrow> jsnum" where
  "parseInt v = (case v of None \<Rightarrow> parseInt_str (js ''undefined'') | Some s \<Rightarrow> parseInt_str s)"

text \<open>
  \<^verbatim>\<open>Math.floor(n / 100) * 100\<close> on doubles. For an integer \<open>n\<close> of magnitude below \<open>2^53\<close>
  the quotient \<open>n / 100\<close> is below \<open>2^47\<close>, where neighbouring doubles are at most \<open>2^-6\<close>
  apart, while a quotient that is not an integer is at least \<open>1 / 100\<close> away from the
  next integer: rounding does not reach it, the floor is exact, and so is the product.
  Beyond that the quotient is rounded to 53 significant bits before the floor, and the
  product is rounded again. Every operation on \<^verbatim>\<open>NaN\<close> gives \<^verbatim>\<open>NaN\<close>, and an infinity
  stays as it is.
\<close>

definition floor_quotient_100 :: "int \<Rightarrow> int" where
  "floor_quotient_100 n =
     (let A = \<bar>n\<bar>; e = bit_length (A div 100)
      in if e \<ge> 53
         then (let f = round_half_even A (100 * 2 ^ (e - 53)) * 2 ^ (e - 53)
               in if n < 0 then - f else f)
         else (let t = 53 - e; m = round_half_even (A * 2 ^ t) 100
               in if n < 0 then - ((m + 2 ^ t - 1) div 2 ^ t) else m div 2 ^ t))"

definition floor_hundred :: "jsnum \<Rightarrow> jsnum" where
  "floor_hundred v =
     (case v of
        Num n \<Rightarrow>
          (if \<bar>n\<bar> < 2 ^ 53 then Num ((n div 100) * 100)
           else double_of_int (floor_quotient_100 n * 100))
      | NaN \<Rightarrow> NaN
      | PosInfinity \<Rightarrow> PosInfinity
      | NegInfinity \<Rightarrow> NegInfinity)"

text \<open>
  A truthiness test on a string-or-null value: \<^verbatim>\<open>null\<close> and the empty string are
  falsy.
\<close>

definition truthy :: "jsstring option \<Rightarrow> bool" where
  "truthy v = (case v of None \<Rightarrow> False | Some s \<Rightarrow> s \<noteq> [])"

text \<open>\<^verbatim>\<open>s.includes(t)\<close>: \<open>t\<close> occurs in \<open>s\<close> as a contiguous substring.\<close>

fun str_includes :: "jsstring \<Rightarrow> jsstring \<Rightarrow> bool" where
  "str_includes [] t = (t = [])"
| "str_includes (c # cs) t = (prefix t (c # cs) \<or> str_includes cs t)"

text \<open>
  An object whose keys are numbers converted to strings, such as \<^verbatim>\<open>levels\<close>, is kept
  as an association list in the order in which the keys were created. The key of a
  number is its string, which is different for different numbers, so the number itself
  stands for the key. \<^verbatim>\<open>Object.entries\<close> enumerates the keys that are array indices (the
  integers from 0 to \<open>2^32 - 2\<close>) first, in ascending numeric order, and the other keys
  after them in the order of their creation.
\<close>

definition is_array_index :: "jsnum \<Rightarrow> bool" where
  "is_array_index k = (case k of Num n \<Rightarrow> 0 \<le> n \<and> n < 2 ^ 32 - 1 | _ \<Rightarrow> False)"

definition num_of :: "jsnum \<Rightarrow> int" where
  "num_of k = (case k of Num n \<Rightarrow> n | _ \<Rightarrow> 0)"

definition Object_entries :: "(jsnum \<times> 'v) list \<Rightarrow> (jsnum \<times> 'v) list" where
  "Object_entries obj =
     sort_key (\<lambda>e. num_of (fst e)) (filter (\<lambda>e. is_array_index (fst e)) obj)
     @ filter (\<lambda>e. \<not> is_array_index (fst e)) obj"

text \<open>
  The object \<^verbatim>\<open>positions\<close> starts as \<^verbatim>\<open>{}\<close> and is written by assignments
  \<^verbatim>\<open>positions[name] = {x, y}\<close> only; the partial map of the model records the position
  assigned under each name. A read \<^verbatim>\<open>nodePositions[k]\<close> goes through the prototype chain:
  it gives the position assigned under \<open>k\<close>, if there is one; otherwise, for the name
  of a member of \<^verbatim>\<open>Object.prototype\<close>, that member, which is a function or an object.
  An assignment under the name \<^verbatim>\<open>__proto__\<close> does not create a property but makes the
  assigned position the prototype of the object: a read of \<^verbatim>\<open>__proto__\<close> returns it, and
  the names \<^verbatim>\<open>x\<close> and \<^verbatim>\<open>y\<close> are then inherited from it as numbers.
\<close>

definition Object_prototype_names :: "jsstring list" where
  "Object_prototype_names =
     map js [''constructor'', ''__defineGetter__'', ''__defineSetter__'', ''hasOwnProperty'',
       ''__lookupGetter__'', ''__lookupSetter__'', ''isPrototypeOf'', ''propertyIsEnumerable'',
       ''toString'', ''valueOf'', ''__proto__'', ''toLocaleString'']"

definition js_get :: "(jsstring \<rightharpoonup> position) \<Rightarrow> jsstring \<Rightarrow> jsval" where
  "js_get obj k =
     (case obj k of
        Some p \<Rightarrow> PositionObj p
      | None \<Rightarrow>
          if k \<in> set Object_prototype_names then Inherited
          else (case obj (js ''__proto__'') of
                  None \<Rightarrow> Undefined
                | Some p \<Rightarrow>
                    if k = js ''x'' then Number (pos_x p)
                    else if k = js ''y'' then Number (pos_y p)
                    else Undefined))"

text \<open>Truthiness of such a value: \<^verbatim>\<open>undefined\<close> and the number 0 are falsy.\<close>

definition js_truthy :: "jsval \<Rightarrow> bool" where
  "js_truthy v = (case v of Undefined \<Rightarrow> False | Number r \<Rightarrow> r \<noteq> 0 | _ \<Rightarrow> True)"

section \<open>The program structure: merged course details and level buckets\<close>

text \<open>
  \<^verbatim>\<open>getCourseDetails\<close> loads the data file of the department named by the text before
  the first space; the files are a parameter \<open>catalog\<close>, \<open>None\<close> where loading
  throws.
\<close>

definition getCourseDetails :: "(jsstring \<Rightarrow> course list option) \<Rightarrow> jsstring \<Rightarrow> course option" where
  "getCourseDetails catalog courseNumber =
     (let dept = hd (split_space courseNumber) in
      case catalog dept of
        None \<Rightarrow> None
      | Some deptData \<Rightarrow> find (\<lambda>c. course_number c = courseNumber) deptData)"

text \<open>
  The object spread \<^verbatim>\<open>{...course, ...details}\<close>: a property that the details have wins,
  also when its value is \<^verbatim>\<open>null\<close>.
\<close>

definition override :: "'a jsprop \<Rightarrow> 'a jsprop \<Rightarrow> 'a jsprop" where
  "override a b = (case b of Absent \<Rightarrow> a | _ \<Rightarrow> b)"

definition spread :: "course \<Rightarrow> course option \<Rightarrow> course" where
  "spread c details =
     (case details of
        None \<Rightarrow> c
      | Some d \<Rightarrow>
          \<lparr> course_number = course_number d,
            course_title = override (course_title c) (course_title d),
            credits = override (credits c) (credits d),
            prerequisites = override (prerequisites c) (prerequisites d),
            link = override (link c) (link d) \<rparr>)"

text \<open>\<^verbatim>\<open>parseInt(course.course_number.split(" ")[1])\<close> and the level computed from it.\<close>

definition numeric_part :: "course \<Rightarrow> jsnum" where
  "numeric_part c = parseInt (js_index (split_space (course_number c)) 1)"

definition level_of :: "course \<Rightarrow> jsnum" where
  "level_of c = floor_hundred (numeric_part c)"

text \<open>The read \<^verbatim>\<open>levels[k]\<close>, with the empty list for a key that is absent.\<close>

definition bucket_of :: "(jsnum \<times> course list) list \<Rightarrow> jsnum \<Rightarrow> course list" where
  "bucket_of levels k = (case map_of levels k of None \<Rightarrow> [] | Some b \<Rightarrow> b)"

text \<open>
  \<^verbatim>\<open>if (!levels[level]) levels[level] = []; levels[level].push(course)\<close>: an array is
  never falsy, so a bucket is created exactly when the key is new.
\<close>

fun levels_push :: "jsnum \<Rightarrow> course \<Rightarrow> (jsnum \<times> course list) list \<Rightarrow> (jsnum \<times> course list) list" where
  "levels_push k c [] = [(k, [c])]"
| "levels_push k c ((k', b) # rest) =
     (if k' = k then (k', b @ [c]) # rest else (k', b) # levels_push k c rest)"

definition organize :: "course list \<Rightarrow> (jsnum \<times> course list) list" where
  "organize cs = foldl (\<lambda>levels c. levels_push (level_of c) c levels) [] cs"

text \<open>The distinct elements of a list in the order of their first occurrence.\<close>

definition first_seen :: "'a list \<Rightarrow> 'a list" where
  "first_seen ks = rev (remdups (rev ks))"

text \<open>
  The distinct values \<open>floor (n / 100) * 100\<close> of the numeric parts that parse to a
  number \<open>n\<close>, and the test that a numeric part either does not parse or has a magnitude
  below \<open>2^53\<close>.
\<close>

definition parsed_floor_values :: "course list \<Rightarrow> int list" where
  "parsed_floor_values cs =
     remdups (concat (map (\<lambda>c. case numeric_part c of Num n \<Rightarrow> [(n div 100) * 100] | _ \<Rightarrow> []) cs))"

definition exact_or_unparsed :: "course \<Rightarrow> bool" where
  "exact_or_unparsed c =
     (case numeric_part c of Num n \<Rightarrow> \<bar>n\<bar> < 2 ^ 53 | NaN \<Rightarrow> True | _ \<Rightarrow> False)"

definition programStructure ::
  "program_entry list \<Rightarrow> (jsstring \<Rightarrow> course list option) \<Rightarrow> jsstring \<Rightarrow> programStructure_t option" where
  "programStructure programsData catalog selectedProgram =
     (if selectedProgram = [] then None
      else case find (\<lambda>p. program p = selectedProgram) programsData of
        None \<Rightarrow> None
      | Some p \<Rightarrow>
          (let coursesWithDetails =
                 map (\<lambda>c. spread c (getCourseDetails catalog (course_number c))) (courses p)
           in Some \<lparr> ps_courses = coursesWithDetails, ps_levels = organize coursesWithDetails \<rparr>))"

section \<open>The edge deriver\<close>

text \<open>
  \<^verbatim>\<open>renderPrerequisiteLines\<close>: two nested \<^verbatim>\<open>forEach\<close> loops that push onto \<^verbatim>\<open>lines\<close>. The
  tests \<^verbatim>\<open>!sourcePos\<close> and \<^verbatim>\<open>targetPos\<close> are truthiness tests on what the reads give.
  The test \<^verbatim>\<open>course.prerequisites\<close> holds for an array and fails for an absent or
  \<^verbatim>\<open>null\<close> property.
\<close>

definition push_line :: "(jsstring \<rightharpoonup> position) \<Rightarrow> course \<Rightarrow> jsval \<Rightarrow> line list \<Rightarrow> jsstring \<Rightarrow> line list" where
  "push_line nodePositions c sourcePos lines prereq =
     (let targetPos = js_get nodePositions prereq
      in if js_truthy targetPos
         then lines @ [\<lparr> line_id = prereq @ js ''-'' @ course_number c,
                          source = targetPos, target = sourcePos \<rparr>]
         else lines)"

definition course_lines :: "(jsstring \<rightharpoonup> position) \<Rightarrow> line list \<Rightarrow> course \<Rightarrow> line list" where
  "course_lines nodePositions lines c =
     (let sourcePos = js_get nodePositions (course_number c)
      in if \<not> js_truthy sourcePos then lines
         else (case prerequisites c of
                 Val prereqs \<Rightarrow> foldl (push_line nodePositions c sourcePos) lines prereqs
               | _ \<Rightarrow> lines))"

definition renderPrerequisiteLines ::
  "programStructure_t option \<Rightarrow> (jsstring \<rightharpoonup> position) \<Rightarrow> line list" where
  "renderPrerequisiteLines ps nodePositions =
     (case ps of
        None \<Rightarrow> []
      | Some s \<Rightarrow> foldl (course_lines nodePositions) [] (ps_courses s))"

text \<open>The edge that a pair of a prerequisite and a course stands for.\<close>

definition edge_of :: "(jsstring \<rightharpoonup> position) \<Rightarrow> jsstring \<Rightarrow> course \<Rightarrow> line" where
  "edge_of nodePositions prereq c =
     \<lparr> line_id = prereq @ js ''-'' @ course_number c,
       source = js_get nodePositions prereq,
       target = js_get nodePositions (course_number c) \<rparr>"

text \<open>\<^verbatim>\<open>course.prerequisites || []\<close>.\<close>

definition prereqs_of :: "course \<Rightarrow> jsstring list" where
  "prereqs_of c = (case prerequisites c of Val ps \<Rightarrow> ps | _ \<Rightarrow> [])"

text \<open>
  The pairs of a prerequisite reference and the course that lists it, in the order in
  which the two loops visit them, and the test that both reads are truthy.
\<close>

definition prereq_pairs :: "course list \<Rightarrow> (jsstring \<times> course) list" where
  "prereq_pairs cs = concat (map (\<lambda>c. map (\<lambda>p. (p, c)) (prereqs_of c)) cs)"

definition both_truthy :: "(jsstring \<rightharpoonup> position) \<Rightarrow> jsstring \<times> course \<Rightarrow> bool" where
  "both_truthy np pc =
     (js_truthy (js_get np (fst pc)) \<and> js_truthy (js_get np (course_number (snd pc))))"

text \<open>
  A plain name: neither the name of a member of \<^verbatim>\<open>Object.prototype\<close> nor \<^verbatim>\<open>x\<close> or
  \<^verbatim>\<open>y\<close>. A string with a space in it, such as a department and a number, is plain.
\<close>

definition plain_name :: "jsstring \<Rightarrow> bool" where
  "plain_name k = (k \<notin> set Object_prototype_names \<and> k \<noteq> js ''x'' \<and> k \<noteq> js ''y'')"

section \<open>The layout engine\<close>

record layout_state =
  positions :: "jsstring \<rightharpoonup> position"
  maxX :: real
  maxY :: real
  draws :: nat

record dimensions =
  width :: real
  height :: real

record layout_result =
  nodePositions :: "jsstring \<rightharpoonup> position"
  svgDimensions :: dimensions

definition levelHeight :: real where
  "levelHeight = 150"

definition nodeWidth :: real where
  "nodeWidth = 120"

definition verticalNoise :: real where
  "verticalNoise = 30"

definition mapWidth :: "real \<Rightarrow> real" where
  "mapWidth cw = cw * (7 / 10)"

definition baseY :: "nat \<Rightarrow> real" where
  "baseY levelIndex = real levelIndex * levelHeight + 100"

definition node_x :: "real \<Rightarrow> nat \<Rightarrow> nat \<Rightarrow> real" where
  "node_x mw n index = (real index - (real n - 1) / 2) * nodeWidth + mw / 2"

text \<open>
  \<^verbatim>\<open>Math.random()\<close> is a parameter \<open>random\<close>: the value of the \<open>j\<close>-th call of one
  layout computation; \<open>draws\<close> counts the calls made so far. The inner loop places
  the courses of one level; \<open>n\<close> is \<^verbatim>\<open>courses.length\<close>.
\<close>

fun place_courses ::
  "real \<Rightarrow> real \<Rightarrow> (nat \<Rightarrow> real) \<Rightarrow> nat \<Rightarrow> course list \<Rightarrow> nat \<Rightarrow> layout_state \<Rightarrow> layout_state" where
  "place_courses mw by random n [] index st = st"
| "place_courses mw by random n (c # cs) index st =
     (let randomOffset = (random (draws st) - 1 / 2) * verticalNoise;
          y = by + randomOffset;
          x = node_x mw n index
      in place_courses mw by random n cs (Suc index)
           (st\<lparr> positions := (positions st)(course_number c \<mapsto> \<lparr> pos_x = x, pos_y = y \<rparr>),
                maxX := max (maxX st) (x + 60),
                draws := Suc (draws st) \<rparr>))"

fun place_levels ::
  "real \<Rightarrow> (nat \<Rightarrow> real) \<Rightarrow> (jsnum \<times> course list) list \<Rightarrow> nat \<Rightarrow> layout_state \<Rightarrow> layout_state" where
  "place_levels mw random [] levelIndex st = st"
| "place_levels mw random ((level, cs) # rest) levelIndex st =
     place_levels mw random rest (Suc levelIndex)
       (place_courses mw (baseY levelIndex) random (length cs) cs 0
          (st\<lparr> maxY := max (maxY st) (baseY levelIndex + 100) \<rparr>))"

definition layout :: "(nat \<Rightarrow> real) \<Rightarrow> programStructure_t option \<Rightarrow> real \<Rightarrow> layout_result" where
  "layout random ps cw =
     (case ps of
        None \<Rightarrow> \<lparr> nodePositions = Map.empty,
                  svgDimensions = \<lparr> width = 1000, height = 800 \<rparr> \<rparr>
      | Some s \<Rightarrow>
          (let st = place_levels (mapWidth cw) random (Object_entries (ps_levels s)) 0
                      \<lparr> positions = Map.empty, maxX = 0, maxY = 0, draws = 0 \<rparr>
           in \<lparr> nodePositions = positions st,
                svgDimensions = \<lparr> width = max (mapWidth cw) (maxX st + 100),
                                  height = maxY st + 100 \<rparr> \<rparr>))"

section \<open>Component state and event handlers\<close>

record vec =
  vx :: real
  vy :: real

record state =
  selectedProgram :: jsstring
  selectedNode :: "jsstring option"
  containerWidth :: real
  offset :: vec
  isDragging :: bool
  dragStart :: vec

record mouse_event =
  button :: int
  clientX :: real
  clientY :: real

text \<open>The initial values of the \<^verbatim>\<open>useState\<close> hooks.\<close>

definition initial_state :: state where
  "initial_state =
     \<lparr> selectedProgram = [], selectedNode = None, containerWidth = 0,
       offset = \<lparr> vx = 0, vy = 0 \<rparr>, isDragging = False,
       dragStart = \<lparr> vx = 0, vy = 0 \<rparr> \<rparr>"

definition handleMouseDown :: "mouse_event \<Rightarrow> state \<Rightarrow> state" where
  "handleMouseDown e s =
     (if button e = 0
      then s\<lparr> isDragging := True,
              dragStart := \<lparr> vx = clientX e - vx (offset s), vy = clientY e - vy (offset s) \<rparr> \<rparr>
      else s)"

definition handleMouseMove :: "mouse_event \<Rightarrow> state \<Rightarrow> state" where
  "handleMouseMove e s =
     (if isDragging s
      then s\<lparr> offset := \<lparr> vx = clientX e - vx (dragStart s), vy = clientY e - vy (dragStart s) \<rparr> \<rparr>
      else s)"

definition handleMouseUp :: "state \<Rightarrow> state" where
  "handleMouseUp s = s\<lparr> isDragging := False \<rparr>"

text \<open>
  The events of the component. The listeners for moves and releases are registered
  again whenever \<^verbatim>\<open>isDragging\<close> or \<^verbatim>\<open>dragStart\<close> changes, so each handler reads the
  current state. A click on a prerequisite entry of the details panel
  carries the value \<^verbatim>\<open>nodePositions[prereq]\<close> that its handler reads and tests for
  truthiness. A click on a node opens a link and leaves the state as it is.
\<close>

datatype event =
    MouseDown mouse_event
  | MouseMove mouse_event
  | MouseUp
  | MouseLeave
  | ProgramChange jsstring
  | Resize real
  | NodeEnter jsstring
  | NodeLeave
  | NodeClick
  | PrereqClick jsstring jsval

fun step :: "event \<Rightarrow> state \<Rightarrow> state" where
  "step (MouseDown e) s = handleMouseDown e s"
| "step (MouseMove e) s = handleMouseMove e s"
| "step MouseUp s = handleMouseUp s"
| "step MouseLeave s = handleMouseUp s"
| "step (ProgramChange v) s = s\<lparr> selectedProgram := v \<rparr>"
| "step (Resize w) s = s\<lparr> containerWidth := w - 48 \<rparr>"
| "step (NodeEnter cn) s = s\<lparr> selectedNode := Some cn \<rparr>"
| "step NodeLeave s = s\<lparr> selectedNode := None \<rparr>"
| "step NodeClick s = s"
| "step (PrereqClick prereq node) s =
     (if js_truthy node then s\<lparr> selectedNode := Some prereq \<rparr> else s)"

definition run :: "event list \<Rightarrow> state \<Rightarrow> state" where
  "run es s = foldl (\<lambda>t e. step e t) s es"

definition primary_press :: "event \<Rightarrow> bool" where
  "primary_press e = (case e of MouseDown m \<Rightarrow> button m = 0 | _ \<Rightarrow> False)"

section \<open>Edge emphasis\<close>

text \<open>
  The opacity of an arrowed line and of a plain edge. The larger value of each is the
  emphasis.
\<close>

definition arrow_opacity :: "jsstring option \<Rightarrow> line \<Rightarrow> real" where
  "arrow_opacity sel l =
     (if truthy sel
      then (if str_includes (line_id l) (the sel) then 2 else 1 / 10)
      else 1 / 100)"

definition plain_opacity :: "jsstring option \<Rightarrow> course \<Rightarrow> jsstring \<Rightarrow> real" where
  "plain_opacity sel c prereq =
     (if truthy sel
      then (if sel = Some (course_number c) \<or> sel = Some prereq then 1 else 2 / 10)
      else 5 / 10)"

section \<open>The details panel\<close>

datatype js_error = TypeError

text \<open>
  An entry of the list of prerequisites: the reference, whether it is dimmed (the read
  \<^verbatim>\<open>nodePositions[prereq]\<close> is falsy), and the title of the course of that number in
  the program, if there is such a course.
\<close>

record prereq_item =
  item_prereq :: jsstring
  item_dimmed :: bool
  item_title :: "jsstring jsprop option"

datatype prereq_view = NoPrereqs | Items "prereq_item list"

record details =
  heading :: jsstring
  title :: "jsstring jsprop"
  prereq_list :: prereq_view
  credit_text :: "real jsprop"

datatype panel = Hint | Details details

text \<open>
  \<^verbatim>\<open>programStructure?.courses.find(...)\<close> gives \<^verbatim>\<open>undefined\<close> without a structure or a
  match; \<^verbatim>\<open>programStructure.courses.find(...).f\<close> throws a \<^verbatim>\<open>TypeError\<close> there.
\<close>

definition find_guarded :: "programStructure_t option \<Rightarrow> jsstring \<Rightarrow> course option" where
  "find_guarded ps sel =
     (case ps of None \<Rightarrow> None | Some s \<Rightarrow> find (\<lambda>c. course_number c = sel) (ps_courses s))"

definition find_read :: "programStructure_t option \<Rightarrow> jsstring \<Rightarrow> (course \<Rightarrow> 'a) \<Rightarrow> js_error + 'a" where
  "find_read ps sel f =
     (case ps of
        None \<Rightarrow> Inl TypeError
      | Some s \<Rightarrow>
          (case find (\<lambda>c. course_number c = sel) (ps_courses s) of
             None \<Rightarrow> Inl TypeError
           | Some c \<Rightarrow> Inr (f c)))"

definition prereq_entry ::
  "programStructure_t \<Rightarrow> (jsstring \<rightharpoonup> position) \<Rightarrow> jsstring \<Rightarrow> prereq_item" where
  "prereq_entry s np prereq =
     (let prereqDetails = find (\<lambda>c. course_number c = prereq) (ps_courses s)
      in \<lparr> item_prereq = prereq,
           item_dimmed = (\<not> js_truthy (js_get np prereq)),
           item_title = (case prereqDetails of None \<Rightarrow> None | Some d \<Rightarrow> Some (course_title d)) \<rparr>)"

definition prereq_block ::
  "programStructure_t option \<Rightarrow> (jsstring \<rightharpoonup> position) \<Rightarrow> jsstring \<Rightarrow> js_error + prereq_view" where
  "prereq_block ps np sel =
     (case ps of
        None \<Rightarrow> Inl TypeError
      | Some s \<Rightarrow>
          (let course = find (\<lambda>c. course_number c = sel) (ps_courses s);
               prereqs = (case course of None \<Rightarrow> [] | Some c \<Rightarrow> prereqs_of c)
           in if length prereqs = 0 then Inr NoPrereqs
              else Inr (Items (map (prereq_entry s np) prereqs))))"

definition details_panel ::
  "jsstring option \<Rightarrow> programStructure_t option \<Rightarrow> (jsstring \<rightharpoonup> position) \<Rightarrow> js_error + panel" where
  "details_panel sel ps np =
     (if truthy sel \<and> find_guarded ps (the sel) \<noteq> None
      then (case find_read ps (the sel) course_title of
              Inl e \<Rightarrow> Inl e
            | Inr t \<Rightarrow>
                (case prereq_block ps np (the sel) of
                   Inl e \<Rightarrow> Inl e
                 | Inr pv \<Rightarrow>
                     (case find_read ps (the sel) credits of
                        Inl e \<Rightarrow> Inl e
                      | Inr cr \<Rightarrow>
                          Inr (Details \<lparr> heading = the sel, title = t,
                                          prereq_list = pv, credit_text = cr \<rparr>))))
      else Inr Hint)"

section \<open>Example data\<close>

text \<open>
  A small catalogue used to run the definitions: three courses of which the last lists
  a prerequisite that is not in the program, a course that lists the name of an
  inherited member as a prerequisite, a course with a number of 24 digits, a course
  with a no-break space before its number, a program
  without courses, and a random source that always returns one half (no vertical
  offset).
\<close>

definition ex_A100 :: course where
  "ex_A100 = \<lparr> course_number = js ''A 100'', course_title = Val (js ''Intro''), credits = Val 3,
       prerequisites = Absent, link = Absent \<rparr>"

definition ex_A200 :: course where
  "ex_A200 = \<lparr> course_number = js ''A 200'', course_title = Val (js ''Core''), credits = Val 3,
       prerequisites = Val [js ''A 100''], link = Absent \<rparr>"

definition ex_A300 :: course where
  "ex_A300 = \<lparr> course_number = js ''A 300'', course_title = Val (js ''Topics''), credits = Val 4,
       prerequisites = Val [js ''A 200'', js ''A 999''], link = Absent \<rparr>"

definition ex_B200 :: course where
  "ex_B200 = \<lparr> course_number = js ''A 200'', course_title = Val (js ''Core''), credits = Val 3,
       prerequisites = Val [js ''constructor'', js ''A 100'', js ''toString'', js ''A 999''],
       link = Absent \<rparr>"

definition ex_SEM :: course where
  "ex_SEM = \<lparr> course_number = js ''A SEM'', course_title = Val (js ''Seminar''), credits = Val 1,
       prerequisites = Null, link = Absent \<rparr>"

definition ex_Aneg50 :: course where
  "ex_Aneg50 = \<lparr> course_number = js ''A -50'', course_title = Absent, credits = Absent,
       prerequisites = Absent, link = Absent \<rparr>"

definition ex_A150 :: course where
  "ex_A150 = \<lparr> course_number = js ''A 150'', course_title = Absent, credits = Absent,
       prerequisites = Absent, link = Absent \<rparr>"

definition ex_NBSP :: course where
  "ex_NBSP = \<lparr> course_number = js ''A '' @ [160] @ js ''200'', course_title = Absent,
       credits = Absent, prerequisites = Absent, link = Absent \<rparr>"

definition ex_BIG :: course where
  "ex_BIG = \<lparr> course_number = js ''A 100000000000000000000150'', course_title = Absent,
       credits = Absent, prerequisites = Absent, link = Absent \<rparr>"

definition ex_programs :: "program_entry list" where
  "ex_programs =
     [\<lparr> program = js ''P'', courses = [ex_A100, ex_A200, ex_A300] \<rparr>,
      \<lparr> program = js ''Empty'', courses = [] \<rparr>,
      \<lparr> program = js ''Q'', courses = [ex_A100, ex_SEM] \<rparr>,
      \<lparr> program = js ''N'', courses = [ex_Aneg50, ex_A150] \<rparr>,
      \<lparr> program = js ''R'', courses = [ex_A100, ex_A150] \<rparr>,
      \<lparr> program = js ''B'', courses = [ex_A100, ex_B200] \<rparr>,
      \<lparr> program = js ''G'', courses = [ex_BIG] \<rparr>,
      \<lparr> program = js ''W'', courses = [ex_NBSP] \<rparr>]"

definition ex_catalog :: "jsstring \<Rightarrow> course list option" where
  "ex_catalog dept = None"

definition ex_random :: "nat \<Rightarrow> real" where
  "ex_random j = 1 / 2"

definition ex_structure :: programStructure_t where
  "ex_structure =
     \<lparr> ps_courses = [ex_A100, ex_A200, ex_A300],
       ps_levels = [(Num 100, [ex_A100]), (Num 200, [ex_A200]), (Num 300, [ex_A300])] \<rparr>"

definition ex_structure_R :: programStructure_t where
  "ex_structure_R =
     \<lparr> ps_courses = [ex_A100, ex_A150], ps_levels = [(Num 100, [ex_A100, ex_A150])] \<rparr>"

definition ex_structure_Q :: programStructure_t where
  "ex_structure_Q =
     \<lparr> ps_courses = [ex_A100, ex_SEM],
       ps_levels = [(Num 100, [ex_A100]), (NaN, [ex_SEM])] \<rparr>"

definition ex_structure_B :: programStructure_t where
  "ex_structure_B =
     \<lparr> ps_courses = [ex_A100, ex_B200],
       ps_levels = [(Num 100, [ex_A100]), (Num 200, [ex_B200])] \<rparr>"

definition ex_structure_G :: programStructure_t where
  "ex_structure_G =
     \<lparr> ps_courses = [ex_BIG], ps_levels = [(Num 100000000000000008388608, [ex_BIG])] \<rparr>"

definition ex_structure_W :: programStructure_t where
  "ex_structure_W = \<lparr> ps_courses = [ex_NBSP], ps_levels = [(Num 200, [ex_NBSP])] \<rparr>"

definition ex_structure_Empty :: programStructure_t where
  "ex_structure_Empty = \<lparr> ps_courses = [], ps_levels = [] \<rparr>"

definition ex_positions :: "jsstring \<rightharpoonup> position" where
  "ex_positions =
     [js ''A 100'' \<mapsto> \<lparr> pos_x = 350, pos_y = 100 \<rparr>,
      js ''A 200'' \<mapsto> \<lparr> pos_x = 350, pos_y = 250 \<rparr>,
      js ''A 300'' \<mapsto> \<lparr> pos_x = 350, pos_y = 400 \<rparr>]"

section \<open>Evaluation of the example data\<close>

lemmas parse_defs =
  js_def numeric_part_def parseInt_def parseInt_str_def isWhiteSpace_def isDigitIn_def
  digitValue_def digitsValue_def double_of_int_def nearest_double_def Let_def

lemmas structure_defs =
  programStructure_def ex_programs_def ex_catalog_def getCourseDetails_def spread_def
  organize_def level_of_def floor_hundred_def

lemma ex_structure_P: "programStructure ex_programs ex_catalog (js ''P'') = Some ex_structure"
  by (simp add: structure_defs parse_defs ex_structure_def ex_A100_def ex_A200_def ex_A300_def)

lemma ex_structure_R: "programStructure ex_programs ex_catalog (js ''R'') = Some ex_structure_R"
  by (simp add: structure_defs parse_defs ex_structure_R_def ex_A100_def ex_A150_def)

lemma ex_structure_Q: "programStructure ex_programs ex_catalog (js ''Q'') = Some ex_structure_Q"
  by (simp add: structure_defs parse_defs ex_structure_Q_def ex_A100_def ex_SEM_def)

lemma ex_structure_B: "programStructure ex_programs ex_catalog (js ''B'') = Some ex_structure_B"
  by (simp add: structure_defs parse_defs ex_structure_B_def ex_A100_def ex_B200_def)

lemma ex_structure_Empty:
  "programStructure ex_programs ex_catalog (js ''Empty'') = Some ex_structure_Empty"
  by (simp add: programStructure_def ex_programs_def ex_structure_Empty_def organize_def js_def)

lemma numeric_part_A100: "numeric_part ex_A100 = Num 100"
  by (simp add: parse_defs ex_A100_def)

lemma numeric_part_SEM: "numeric_part ex_SEM = NaN"
  by (simp add: parse_defs ex_SEM_def)

lemma numeric_part_NBSP: "numeric_part ex_NBSP = Num 200"
  by (simp add: parse_defs ex_NBSP_def)

lemma ex_structure_W: "programStructure ex_programs ex_catalog (js ''W'') = Some ex_structure_W"
  by (simp add: structure_defs parse_defs ex_structure_W_def ex_NBSP_def)

lemma numeric_part_BIG: "numeric_part ex_BIG = Num 100000000000000008388608"
  by (simp add: parse_defs ex_BIG_def bit_length.simps round_half_even_def)

lemma level_of_BIG: "level_of ex_BIG = Num 100000000000000008388608"
  by (simp add: level_of_def numeric_part_BIG floor_hundred_def floor_quotient_100_def
        double_of_int_def nearest_double_def bit_length.simps round_half_even_def Let_def)

lemma ex_structure_G: "programStructure ex_programs ex_catalog (js ''G'') = Some ex_structure_G"
proof -
  have "organize [ex_BIG] = [(Num 100000000000000008388608, [ex_BIG])]"
    by (simp add: organize_def level_of_BIG)
  then show ?thesis
    by (simp add: programStructure_def ex_programs_def ex_catalog_def getCourseDetails_def
          spread_def ex_structure_G_def js_def Let_def)
qed

section \<open>Edges and positions\<close>

lemma foldl_push_line:
  "foldl (push_line np c sp) lines prereqs =
   lines @ map (\<lambda>p. \<lparr> line_id = p @ js ''-'' @ course_number c, source = js_get np p, target = sp \<rparr>)
             (filter (\<lambda>p. js_truthy (js_get np p)) prereqs)"
proof (induction prereqs arbitrary: lines)
  case Nil
  show ?case by simp
next
  case (Cons q qs)
  show ?case
    unfolding foldl_Cons Cons.IH
    by (simp add: push_line_def Let_def)
qed

lemma course_lines_eq:
  "course_lines np lines c =
   lines @ map (\<lambda>pc. edge_of np (fst pc) (snd pc))
             (filter (both_truthy np) (map (\<lambda>p. (p, c)) (prereqs_of c)))"
proof (cases "js_truthy (js_get np (course_number c))")
  case False
  then show ?thesis by (simp add: course_lines_def both_truthy_def Let_def)
next
  case True
  show ?thesis
  proof (cases "prerequisites c")
    case (Val ps)
    with True show ?thesis
      by (simp add: course_lines_def prereqs_of_def foldl_push_line edge_of_def
            both_truthy_def filter_map comp_def Let_def)
  qed (use True in \<open>simp_all add: course_lines_def prereqs_of_def Let_def\<close>)
qed

lemma foldl_course_lines:
  "foldl (course_lines np) lines cs =
   lines @ map (\<lambda>pc. edge_of np (fst pc) (snd pc)) (filter (both_truthy np) (prereq_pairs cs))"
proof (induction cs arbitrary: lines)
  case Nil
  show ?case by (simp add: prereq_pairs_def)
next
  case (Cons d ds)
  show ?case
    by (simp only: foldl_Cons Cons.IH) (simp add: course_lines_eq prereq_pairs_def)
qed

text \<open>
  What the edge deriver computes on every input: one edge, in the order of the loops,
  for each pair of a prerequisite reference and its course of which both reads of the
  position object are truthy.
\<close>

lemma renderPrerequisiteLines_truthy:
  "renderPrerequisiteLines (Some ps) np =
     map (\<lambda>pc. edge_of np (fst pc) (snd pc))
       (filter (both_truthy np) (prereq_pairs (ps_courses ps)))"
  by (simp add: renderPrerequisiteLines_def foldl_course_lines)

text \<open>
  A read of a plain name is truthy exactly when a position was assigned under the name.
  For course lists in which every course number and every reference is a plain name,
  the edges are those of the pairs with two positions.
\<close>

lemma js_get_plain:
  "plain_name k \<Longrightarrow> js_truthy (js_get np k) \<longleftrightarrow> k \<in> dom np"
  by (auto simp: plain_name_def js_get_def js_truthy_def split: option.splits)

lemma renderPrerequisiteLines_plain:
  assumes "\<forall>c \<in> set (ps_courses ps). plain_name (course_number c) \<and>
             (\<forall>p \<in> set (prereqs_of c). plain_name p)"
  shows "renderPrerequisiteLines (Some ps) np =
     map (\<lambda>pc. edge_of np (fst pc) (snd pc))
       (filter (\<lambda>pc. fst pc \<in> dom np \<and> course_number (snd pc) \<in> dom np)
          (prereq_pairs (ps_courses ps)))"
proof -
  have "both_truthy np pc \<longleftrightarrow> fst pc \<in> dom np \<and> course_number (snd pc) \<in> dom np"
    if "pc \<in> set (prereq_pairs (ps_courses ps))" for pc
  proof -
    from that have "snd pc \<in> set (ps_courses ps)" "fst pc \<in> set (prereqs_of (snd pc))"
      by (auto simp: prereq_pairs_def)
    with assms have "plain_name (fst pc)" "plain_name (course_number (snd pc))"
      by auto
    then show ?thesis
      by (simp add: both_truthy_def js_get_plain)
  qed
  then have "filter (both_truthy np) (prereq_pairs (ps_courses ps)) =
        filter (\<lambda>pc. fst pc \<in> dom np \<and> course_number (snd pc) \<in> dom np)
          (prereq_pairs (ps_courses ps))"
    by (intro filter_cong) simp_all
  then show ?thesis
    by (simp add: renderPrerequisiteLines_truthy)
qed

lemma space_plain_name: "32 \<in> set k \<Longrightarrow> plain_name k"
  by (auto simp: plain_name_def Object_prototype_names_def js_def)

lemma ex_layout_B:
  "nodePositions (layout ex_random (Some ex_structure_B) 1000) =
     [js ''A 100'' \<mapsto> \<lparr> pos_x = 350, pos_y = 100 \<rparr>,
      js ''A 200'' \<mapsto> \<lparr> pos_x = 350, pos_y = 250 \<rparr>]"
  by (simp add: layout_def ex_structure_B_def Object_entries_def is_array_index_def num_of_def
        ex_random_def ex_A100_def ex_B200_def mapWidth_def baseY_def levelHeight_def
        node_x_def nodeWidth_def verticalNoise_def js_def)

text \<open>
  Claim C1. The claim does not hold of the code for every course list. The position
  object is a plain object, and the test before a line is pushed is a truthiness test
  on a read through the prototype chain, although the comment beside it says that a
  line is drawn only if both positions exist. The program \<open>B\<close> has the courses \<open>A 100\<close>
  and \<open>A 200\<close>, and \<open>A 200\<close> lists the references \<open>constructor\<close>, \<open>A 100\<close>, \<open>toString\<close>
  and \<open>A 999\<close>. With the positions that the layout computes for it, the code emits
  three edges: one for the reference \<open>A 100\<close>, and one each for the references
  \<open>constructor\<close> and \<open>toString\<close>, which are not keys of the position mapping and whose
  source is the inherited member, not a position. The reference \<open>A 999\<close> produces no
  edge.
\<close>

theorem renderPrerequisiteLines_inherited_reference:
  "programStructure ex_programs ex_catalog (js ''B'') = Some ex_structure_B \<and>
   js ''constructor'' \<notin> dom (nodePositions (layout ex_random (Some ex_structure_B) 1000)) \<and>
   js ''toString'' \<notin> dom (nodePositions (layout ex_random (Some ex_structure_B) 1000)) \<and>
   renderPrerequisiteLines (Some ex_structure_B)
       (nodePositions (layout ex_random (Some ex_structure_B) 1000)) =
     [\<lparr> line_id = js ''constructor-A 200'', source = Inherited,
        target = PositionObj \<lparr> pos_x = 350, pos_y = 250 \<rparr> \<rparr>,
      \<lparr> line_id = js ''A 100-A 200'', source = PositionObj \<lparr> pos_x = 350, pos_y = 100 \<rparr>,
        target = PositionObj \<lparr> pos_x = 350, pos_y = 250 \<rparr> \<rparr>,
      \<lparr> line_id = js ''toString-A 200'', source = Inherited,
        target = PositionObj \<lparr> pos_x = 350, pos_y = 250 \<rparr> \<rparr>]"
proof -
  have "js ''constructor'' \<notin> dom (nodePositions (layout ex_random (Some ex_structure_B) 1000))"
    and "js ''toString'' \<notin> dom (nodePositions (layout ex_random (Some ex_structure_B) 1000))"
    unfolding ex_layout_B by (simp_all add: js_def)
  moreover have "renderPrerequisiteLines (Some ex_structure_B)
       (nodePositions (layout ex_random (Some ex_structure_B) 1000)) =
     [\<lparr> line_id = js ''constructor-A 200'', source = Inherited,
        target = PositionObj \<lparr> pos_x = 350, pos_y = 250 \<rparr> \<rparr>,
      \<lparr> line_id = js ''A 100-A 200'', source = PositionObj \<lparr> pos_x = 350, pos_y = 100 \<rparr>,
        target = PositionObj \<lparr> pos_x = 350, pos_y = 250 \<rparr> \<rparr>,
      \<lparr> line_id = js ''toString-A 200'', source = Inherited,
        target = PositionObj \<lparr> pos_x = 350, pos_y = 250 \<rparr> \<rparr>]"
    unfolding ex_layout_B
    by (simp add: renderPrerequisiteLines_def course_lines_def push_line_def js_get_def
          js_truthy_def Object_prototype_names_def ex_structure_B_def
          ex_A100_def ex_B200_def js_def Let_def)
  ultimately show ?thesis
    using ex_structure_B by simp
qed

section \<open>Level buckets\<close>

lemma first_seen_snoc:
  "first_seen (ks @ [k]) = (if k \<in> set ks then first_seen ks else first_seen ks @ [k])"
  by (simp add: first_seen_def)

lemma set_first_seen: "set (first_seen ks) = set ks"
  by (simp add: first_seen_def)

lemma distinct_first_seen: "distinct (first_seen ks)"
  by (simp add: first_seen_def)

lemma length_first_seen: "length (first_seen ks) = card (set ks)"
  by (simp add: first_seen_def length_remdups_card_conv)

lemma levels_push_new:
  "k \<notin> fst ` set levels \<Longrightarrow> levels_push k c levels = levels @ [(k, [c])]"
  by (induction levels) auto

lemma levels_push_map:
  assumes "distinct ks"
  shows "levels_push k c (map (\<lambda>j. (j, f j)) ks) =
   (if k \<in> set ks then map (\<lambda>j. (j, if j = k then f j @ [c] else f j)) ks
    else map (\<lambda>j. (j, f j)) ks @ [(k, [c])])"
  using assms by (induction ks) (auto simp: levels_push_new image_iff)

lemma filter_absent: "k \<notin> f ` set cs \<Longrightarrow> filter (\<lambda>c. f c = k) cs = []"
  by (induction cs) auto

lemma organize_snoc: "organize (cs @ [c]) = levels_push (level_of c) c (organize cs)"
  by (simp add: organize_def)

text \<open>
  The level mapping in closed form: one bucket for each level in the order of first
  occurrence, holding the courses of that level in list order.
\<close>

lemma organize_eq:
  "organize cs = map (\<lambda>k. (k, filter (\<lambda>c. level_of c = k) cs)) (first_seen (map level_of cs))"
proof (induction cs rule: rev_induct)
  case Nil
  show ?case by (simp add: organize_def first_seen_def)
next
  case (snoc c cs)
  show ?case
    unfolding organize_snoc snoc.IH
    by (auto simp: levels_push_map distinct_first_seen first_seen_snoc set_first_seen filter_absent)
qed

lemma keys_organize: "map fst (organize cs) = first_seen (map level_of cs)"
  by (simp add: organize_eq comp_def)

lemma mset_levels_push:
  "mset (concat (map snd (levels_push k c levels))) = add_mset c (mset (concat (map snd levels)))"
  by (induction levels) auto

lemma mset_organize: "mset (concat (map snd (organize cs))) = mset cs"
proof (induction cs rule: rev_induct)
  case Nil
  show ?case by (simp add: organize_def)
next
  case (snoc c cs)
  then show ?case by (simp add: organize_snoc mset_levels_push)
qed

lemma bucket_of_organize:
  "bucket_of (organize cs) k = filter (\<lambda>c. level_of c = k) cs"
proof (cases "k \<in> set (map level_of cs)")
  case True
  then have "map_of (organize cs) k = Some (filter (\<lambda>c. level_of c = k) cs)"
    unfolding organize_eq by (simp add: map_of_map_restrict set_first_seen restrict_map_def)
  then show ?thesis by (simp add: bucket_of_def)
next
  case False
  then have "k \<notin> set (map fst (organize cs))"
    by (simp add: keys_organize set_first_seen)
  then have "map_of (organize cs) k = None"
    by (simp add: map_of_eq_None_iff)
  with False show ?thesis by (simp add: bucket_of_def filter_absent)
qed

lemma programStructure_levels:
  "programStructure programsData catalog sel = Some s \<Longrightarrow> ps_levels s = organize (ps_courses s)"
  by (auto simp: programStructure_def Let_def split: if_splits option.splits)

lemma floor_hundred_exact:
  "\<bar>n\<bar> < 2 ^ 53 \<Longrightarrow> floor_hundred (Num n) = Num ((n div 100) * 100)"
  by (simp add: floor_hundred_def)

lemma floor_hundred_NaN: "floor_hundred NaN = NaN"
  by (simp add: floor_hundred_def)

lemma set_parsed_floor_values:
  "set (parsed_floor_values cs) =
   {(n div 100) * 100 | n c. c \<in> set cs \<and> numeric_part c = Num n}"
  by (auto simp: parsed_floor_values_def split: jsnum.splits) force

lemma level_values:
  assumes "\<forall>c \<in> set cs. exact_or_unparsed c"
  shows "level_of ` set cs =
   Num ` set (parsed_floor_values cs)
   \<union> (if \<exists>c \<in> set cs. numeric_part c = NaN then {NaN} else {})"
  (is "?L = ?P \<union> ?N")
proof (intro equalityI subsetI)
  fix k assume "k \<in> ?L"
  then obtain c where c: "c \<in> set cs" "k = level_of c" by auto
  with assms have e: "exact_or_unparsed c" by simp
  show "k \<in> ?P \<union> ?N"
  proof (cases "numeric_part c")
    case (Num n)
    with e have "\<bar>n\<bar> < 2 ^ 53" by (simp add: exact_or_unparsed_def)
    with Num c have "k = Num ((n div 100) * 100)"
      by (simp add: level_of_def floor_hundred_exact)
    with Num c(1) have "k \<in> ?P"
      unfolding set_parsed_floor_values by blast
    then show ?thesis by simp
  next
    case NaN
    with c have "k \<in> ?N" by (auto simp: level_of_def floor_hundred_NaN)
    then show ?thesis by simp
  qed (use e in \<open>simp_all add: exact_or_unparsed_def\<close>)
next
  fix k assume "k \<in> ?P \<union> ?N"
  then consider (p) "k \<in> ?P" | (n) "k \<in> ?N" by blast
  then show "k \<in> ?L"
  proof cases
    case p
    then obtain n c where c: "c \<in> set cs" "numeric_part c = Num n" "k = Num ((n div 100) * 100)"
      unfolding set_parsed_floor_values by blast
    with assms have "exact_or_unparsed c" by simp
    with c have "\<bar>n\<bar> < 2 ^ 53" by (simp add: exact_or_unparsed_def)
    with c have "level_of c = k" by (simp add: level_of_def floor_hundred_exact)
    with c(1) show ?thesis by blast
  next
    case n
    then obtain c where "c \<in> set cs" "numeric_part c = NaN" "k = NaN"
      by (auto split: if_splits)
    then have "c \<in> set cs" "level_of c = k" by (simp_all add: level_of_def floor_hundred_NaN)
    then show ?thesis by blast
  qed
qed

lemma card_level_values:
  assumes "\<forall>c \<in> set cs. exact_or_unparsed c"
  shows "card (level_of ` set cs) =
   length (parsed_floor_values cs) + (if \<exists>c \<in> set cs. numeric_part c = NaN then 1 else 0)"
proof -
  have d: "distinct (parsed_floor_values cs)"
    by (simp add: parsed_floor_values_def)
  have "card (Num ` set (parsed_floor_values cs)) = length (parsed_floor_values cs)"
    using d by (simp add: card_image inj_on_def distinct_card)
  moreover have "NaN \<notin> Num ` set (parsed_floor_values cs)" by auto
  ultimately show ?thesis
    unfolding level_values [OF assms] by simp
qed

text \<open>
  Claim C2, as the code has it. In the program structure of a selected program, a course
  whose numeric part parses to a number \<open>n\<close> of magnitude below \<open>2^53\<close> is in the bucket of
  the key \<open>floor (n / 100) * 100\<close>. The keys of the level mapping are distinct, and their
  number is the number of distinct values that the level expression takes on the course
  list, where the value is \<^verbatim>\<open>NaN\<close> for a numeric part that does not parse: when every
  numeric part either does not parse or is below \<open>2^53\<close> in magnitude, it is the number of
  distinct values \<open>floor (n / 100) * 100\<close> of the numeric parts that parse, and one more
  if some numeric part does not. A course of the list is in the bucket of its own level
  and in no other, and the buckets together hold exactly the courses of the list.
\<close>

theorem level_buckets_partition:
  assumes "programStructure programsData catalog sel = Some s"
  shows "(\<forall>c \<in> set (ps_courses s). \<forall>n. numeric_part c = Num n \<and> \<bar>n\<bar> < 2 ^ 53 \<longrightarrow>
            c \<in> set (bucket_of (ps_levels s) (Num ((n div 100) * 100)))) \<and>
         distinct (map fst (ps_levels s)) \<and>
         length (ps_levels s) = card (level_of ` set (ps_courses s)) \<and>
         ((\<forall>c \<in> set (ps_courses s). exact_or_unparsed c) \<longrightarrow>
            length (ps_levels s) =
              length (parsed_floor_values (ps_courses s))
              + (if \<exists>c \<in> set (ps_courses s). numeric_part c = NaN then 1 else 0)) \<and>
         (\<forall>c \<in> set (ps_courses s). \<forall>k. c \<in> set (bucket_of (ps_levels s) k) \<longleftrightarrow> k = level_of c) \<and>
         mset (concat (map snd (ps_levels s))) = mset (ps_courses s)"
proof -
  have lv: "ps_levels s = organize (ps_courses s)"
    using assms by (rule programStructure_levels)
  have "c \<in> set (bucket_of (ps_levels s) (Num ((n div 100) * 100)))"
    if "c \<in> set (ps_courses s)" "numeric_part c = Num n" "\<bar>n\<bar> < 2 ^ 53" for c n
    using that by (simp add: lv bucket_of_organize level_of_def floor_hundred_exact)
  moreover have "distinct (map fst (ps_levels s))"
    by (simp add: lv keys_organize distinct_first_seen)
  moreover have len: "length (ps_levels s) = card (level_of ` set (ps_courses s))"
    using length_first_seen [of "map level_of (ps_courses s)"]
    by (simp add: lv organize_eq)
  moreover have "length (ps_levels s) =
              length (parsed_floor_values (ps_courses s))
              + (if \<exists>c \<in> set (ps_courses s). numeric_part c = NaN then 1 else 0)"
    if "\<forall>c \<in> set (ps_courses s). exact_or_unparsed c"
    unfolding len using that by (rule card_level_values)
  moreover have "c \<in> set (bucket_of (ps_levels s) k) \<longleftrightarrow> k = level_of c"
    if "c \<in> set (ps_courses s)" for c k
    using that by (auto simp: lv bucket_of_organize)
  moreover have "mset (concat (map snd (ps_levels s))) = mset (ps_courses s)"
    by (simp add: lv mset_organize)
  ultimately show ?thesis by blast
qed

theorem level_buckets_partition_witness:
  "programStructure ex_programs ex_catalog (js ''Q'') = Some ex_structure_Q \<and>
   ex_A100 \<in> set (ps_courses ex_structure_Q) \<and> numeric_part ex_A100 = Num 100 \<and>
   ex_A100 \<in> set (bucket_of (ps_levels ex_structure_Q) (Num 100)) \<and>
   ex_SEM \<in> set (bucket_of (ps_levels ex_structure_Q) NaN) \<and>
   length (ps_levels ex_structure_Q) = length (parsed_floor_values (ps_courses ex_structure_Q)) + 1 \<and>
   programStructure ex_programs ex_catalog (js ''W'') = Some ex_structure_W \<and>
   numeric_part ex_NBSP = Num 200 \<and>
   ex_NBSP \<in> set (bucket_of (ps_levels ex_structure_W) (Num 200))"
proof -
  note T = level_buckets_partition [OF ex_structure_Q]
  note W = level_buckets_partition [OF ex_structure_W]
  have c: "ex_A100 \<in> set (ps_courses ex_structure_Q)"
    and d: "ex_SEM \<in> set (ps_courses ex_structure_Q)"
    by (simp_all add: ex_structure_Q_def)
  have r: "\<bar>100 :: int\<bar> < 2 ^ 53" by simp
  from T c numeric_part_A100 r
  have "ex_A100 \<in> set (bucket_of (ps_levels ex_structure_Q) (Num ((100 div 100) * 100)))"
    by blast
  then have b1: "ex_A100 \<in> set (bucket_of (ps_levels ex_structure_Q) (Num 100))"
    by simp
  have "level_of ex_SEM = NaN"
    by (simp add: level_of_def numeric_part_SEM floor_hundred_NaN)
  with T d have b2: "ex_SEM \<in> set (bucket_of (ps_levels ex_structure_Q) NaN)"
    by simp
  have e: "\<forall>c \<in> set (ps_courses ex_structure_Q). exact_or_unparsed c"
    by (simp add: ex_structure_Q_def exact_or_unparsed_def numeric_part_A100 numeric_part_SEM)
  have n: "\<exists>c \<in> set (ps_courses ex_structure_Q). numeric_part c = NaN"
    using d numeric_part_SEM by blast
  from T e n have len: "length (ps_levels ex_structure_Q) =
      length (parsed_floor_values (ps_courses ex_structure_Q)) + 1"
    by simp
  have w: "ex_NBSP \<in> set (ps_courses ex_structure_W)"
    by (simp add: ex_structure_W_def)
  have r2: "\<bar>200 :: int\<bar> < 2 ^ 53" by simp
  from W w numeric_part_NBSP r2
  have "ex_NBSP \<in> set (bucket_of (ps_levels ex_structure_W) (Num ((200 div 100) * 100)))"
    by blast
  then have b3: "ex_NBSP \<in> set (bucket_of (ps_levels ex_structure_W) (Num 200))"
    by simp
  from b1 b2 b3 len c numeric_part_A100 numeric_part_NBSP ex_structure_Q ex_structure_W
  show ?thesis by blast
qed

text \<open>
  The claim as stated fails on a list with a numeric part that does not parse: the
  program \<open>Q\<close> has the courses \<open>A 100\<close> and \<open>A SEM\<close>, its level mapping has the two buckets
  of the keys 100 and \<^verbatim>\<open>NaN\<close>, and there is one value \<open>floor (n / 100) * 100\<close> of a
  numeric part that parses. It also fails beyond \<open>2^53\<close>: the numeric part of the course
  \<open>A 100000000000000000000150\<close> parses to the double 100000000000000008388608, and
  the course is in the bucket of that same number, while \<open>floor (n / 100) * 100\<close> ends
  in 600 for the parsed number and is 100000000000000000000100 for the number as
  written; the buckets of those keys are empty.
\<close>

theorem level_buckets_partition_counterexample:
  "programStructure ex_programs ex_catalog (js ''Q'') = Some ex_structure_Q \<and>
   map fst (ps_levels ex_structure_Q) = [Num 100, NaN] \<and>
   length (ps_levels ex_structure_Q) = 2 \<and>
   numeric_part ex_A100 = Num 100 \<and> numeric_part ex_SEM = NaN \<and>
   parsed_floor_values (ps_courses ex_structure_Q) = [100] \<and>
   length (parsed_floor_values (ps_courses ex_structure_Q)) = 1 \<and>
   programStructure ex_programs ex_catalog (js ''G'') = Some ex_structure_G \<and>
   numeric_part ex_BIG = Num 100000000000000008388608 \<and>
   (100000000000000008388608 div 100) * 100 = (100000000000000008388600 :: int) \<and>
   bucket_of (ps_levels ex_structure_G) (Num 100000000000000008388608) = [ex_BIG] \<and>
   bucket_of (ps_levels ex_structure_G) (Num 100000000000000008388600) = [] \<and>
   bucket_of (ps_levels ex_structure_G) (Num 100000000000000000000100) = []"
  using ex_structure_Q numeric_part_A100 numeric_part_SEM ex_structure_G numeric_part_BIG
  by (simp add: ex_structure_Q_def ex_structure_G_def parsed_floor_values_def bucket_of_def)

section \<open>The layout loops\<close>

lemma place_courses_frame:
  "cn \<notin> course_number ` set cs \<Longrightarrow>
   positions (place_courses mw by r n cs idx st) cn = positions st cn"
  by (induction cs arbitrary: idx st) (simp_all add: Let_def)

lemma place_courses_dom:
  "dom (positions (place_courses mw by r n cs idx st)) = dom (positions st) \<union> course_number ` set cs"
  by (induction cs arbitrary: idx st) (auto simp: Let_def)

lemma place_courses_y:
  "positions (place_courses mw by r n cs idx st) cn = Some p \<Longrightarrow>
   positions st cn = Some p \<or>
   (cn \<in> course_number ` set cs \<and> (\<exists>j. pos_y p = by + (r j - 1 / 2) * verticalNoise))"
proof (induction cs arbitrary: idx st)
  case Nil
  then show ?case by simp
next
  case (Cons c cs)
  from Cons.prems have "positions (place_courses mw by r n cs (Suc idx)
      (st\<lparr> positions := (positions st)(course_number c \<mapsto>
               \<lparr> pos_x = node_x mw n idx, pos_y = by + (r (draws st) - 1 / 2) * verticalNoise \<rparr>),
            maxX := max (maxX st) (node_x mw n idx + 60),
            draws := Suc (draws st) \<rparr>)) cn = Some p"
    by (simp add: Let_def)
  from Cons.IH [OF this] show ?case
    by (auto split: if_splits)
qed

lemma place_courses_exact:
  "distinct (map course_number cs) \<Longrightarrow> k < length cs \<Longrightarrow>
   \<exists>j. positions (place_courses mw by r n cs idx st) (course_number (cs ! k)) =
        Some \<lparr> pos_x = node_x mw n (idx + k), pos_y = by + (r j - 1 / 2) * verticalNoise \<rparr>"
proof (induction cs arbitrary: idx st k)
  case Nil
  then show ?case by simp
next
  case (Cons c cs)
  show ?case
  proof (cases k)
    case 0
    from Cons.prems have "course_number c \<notin> course_number ` set cs" by simp
    then show ?thesis
      using 0 by (intro exI [of _ "draws st"]) (simp add: Let_def place_courses_frame)
  next
    case (Suc k')
    with Cons.prems have "distinct (map course_number cs)" "k' < length cs" by simp_all
    from Cons.IH [OF this, of "Suc idx"
        "st\<lparr> positions := (positions st)(course_number c \<mapsto>
               \<lparr> pos_x = node_x mw n idx, pos_y = by + (r (draws st) - 1 / 2) * verticalNoise \<rparr>),
            maxX := max (maxX st) (node_x mw n idx + 60),
            draws := Suc (draws st) \<rparr>"]
    show ?thesis
      using Suc by (simp add: Let_def)
  qed
qed

lemma place_levels_frame:
  "cn \<notin> course_number ` set (concat (map snd E)) \<Longrightarrow>
   positions (place_levels mw r E i0 st) cn = positions st cn"
proof (induction E arbitrary: i0 st)
  case Nil
  show ?case by simp
next
  case (Cons e E)
  obtain level cs where e: "e = (level, cs)" by (cases e)
  from Cons.prems have a: "cn \<notin> course_number ` set cs"
    and b: "cn \<notin> course_number ` set (concat (map snd E))"
    by (auto simp: e)
  show ?case
    by (simp add: e Cons.IH [OF b] place_courses_frame [OF a])
qed

lemma place_levels_dom:
  "dom (positions (place_levels mw r E i0 st)) =
   dom (positions st) \<union> course_number ` set (concat (map snd E))"
proof (induction E arbitrary: i0 st)
  case Nil
  show ?case by simp
next
  case (Cons e E)
  obtain level cs where e: "e = (level, cs)" by (cases e)
  show ?case
    by (simp add: e Cons.IH place_courses_dom image_Un Un_assoc)
qed

lemma place_levels_y:
  "positions (place_levels mw r E i0 st) cn = Some p \<Longrightarrow>
   positions st cn = Some p \<or>
   (\<exists>i<length E. cn \<in> course_number ` set (snd (E ! i)) \<and>
       (\<exists>j. pos_y p = baseY (i0 + i) + (r j - 1 / 2) * verticalNoise))"
proof (induction E arbitrary: i0 st)
  case Nil
  then show ?case by simp
next
  case (Cons e E)
  obtain level cs where e: "e = (level, cs)" by (cases e)
  let ?st1 = "place_courses mw (baseY i0) r (length cs) cs 0
                (st\<lparr> maxY := max (maxY st) (baseY i0 + 100) \<rparr>)"
  from Cons.prems have "positions (place_levels mw r E (Suc i0) ?st1) cn = Some p"
    by (simp add: e)
  from Cons.IH [OF this] consider
    (here) "positions ?st1 cn = Some p"
    | (later) i where "i < length E" "cn \<in> course_number ` set (snd (E ! i))"
        "\<exists>j. pos_y p = baseY (Suc i0 + i) + (r j - 1 / 2) * verticalNoise"
    by blast
  then show ?case
  proof cases
    case here
    from place_courses_y [OF this] consider
      (old) "positions st cn = Some p"
      | (new) "cn \<in> course_number ` set cs"
          "\<exists>j. pos_y p = baseY i0 + (r j - 1 / 2) * verticalNoise"
      by auto
    then show ?thesis
    proof cases
      case old
      then show ?thesis by simp
    next
      case new
      then show ?thesis
        by (intro disjI2 exI [of _ 0]) (simp add: e)
    qed
  next
    case later
    then show ?thesis
      by (intro disjI2 exI [of _ "Suc i"]) (simp add: e)
  qed
qed

lemma place_levels_exact:
  "distinct (map course_number (concat (map snd E))) \<Longrightarrow> i < length E \<Longrightarrow>
   k < length (snd (E ! i)) \<Longrightarrow>
   \<exists>j. positions (place_levels mw r E i0 st) (course_number (snd (E ! i) ! k)) =
        Some \<lparr> pos_x = node_x mw (length (snd (E ! i))) k,
               pos_y = baseY (i0 + i) + (r j - 1 / 2) * verticalNoise \<rparr>"
proof (induction E arbitrary: i0 st i)
  case Nil
  then show ?case by simp
next
  case (Cons e E)
  obtain level cs where e: "e = (level, cs)" by (cases e)
  let ?st0 = "st\<lparr> maxY := max (maxY st) (baseY i0 + 100) \<rparr>"
  let ?st1 = "place_courses mw (baseY i0) r (length cs) cs 0 ?st0"
  from Cons.prems(1) have dcs: "distinct (map course_number cs)"
    and dE: "distinct (map course_number (concat (map snd E)))"
    and disj: "course_number ` set cs \<inter> course_number ` set (concat (map snd E)) = {}"
    by (auto simp: e)
  show ?case
  proof (cases i)
    case 0
    with Cons.prems have k: "k < length cs" by (simp add: e)
    then have "course_number (cs ! k) \<in> course_number ` set cs" by simp
    with disj have "course_number (cs ! k) \<notin> course_number ` set (concat (map snd E))"
      by blast
    then have "positions (place_levels mw r E (Suc i0) ?st1) (course_number (cs ! k)) =
               positions ?st1 (course_number (cs ! k))"
      by (rule place_levels_frame)
    with place_courses_exact [OF dcs k, of mw "baseY i0" r "length cs" 0 ?st0]
    show ?thesis using 0 by (simp add: e)
  next
    case (Suc i')
    with Cons.prems have "i' < length E" "k < length (snd (E ! i'))" by simp_all
    from Cons.IH [OF dE this, of "Suc i0" ?st1] show ?thesis
      using Suc by (simp add: e)
  qed
qed

lemma mset_Object_entries: "mset (Object_entries obj) = mset obj"
  by (simp add: Object_entries_def)

lemma set_Object_entries: "set (Object_entries obj) = set obj"
  by (metis mset_Object_entries set_mset_mset)

lemma mset_concat_entries:
  "mset (concat (map snd (Object_entries obj))) = mset (concat (map snd obj))"
proof -
  have "mset (concat (map snd xs)) = sum_mset (image_mset (\<lambda>e. mset (snd e)) (mset xs))"
    for xs :: "(jsnum \<times> 'a list) list"
    by (induction xs) simp_all
  then show ?thesis by (simp add: mset_Object_entries)
qed

lemma organize_bucket:
  assumes "(k, b) \<in> set (organize cs)"
  shows "b = filter (\<lambda>c. level_of c = k) cs" and "k \<in> level_of ` set cs" and "b \<noteq> []"
proof -
  from assms show b: "b = filter (\<lambda>c. level_of c = k) cs" and k: "k \<in> level_of ` set cs"
    by (auto simp: organize_eq set_first_seen)
  from k obtain c where "c \<in> set cs" "level_of c = k" by auto
  then have "c \<in> set b" by (simp add: b)
  then show "b \<noteq> []" by auto
qed

lemma distinct_entries:
  assumes "distinct (map course_number cs)"
  shows "distinct (map course_number (concat (map snd (Object_entries (organize cs)))))"
proof -
  have "mset (concat (map snd (Object_entries (organize cs)))) = mset cs"
    by (simp add: mset_concat_entries mset_organize)
  then have "mset (map course_number (concat (map snd (Object_entries (organize cs))))) =
             mset (map course_number cs)"
    by (metis mset_map)
  from mset_eq_imp_distinct_iff [OF this] assms show ?thesis by simp
qed

lemma sum_indices: "(\<Sum>k<n. real k) = real n * (real n - 1) / 2"
  by (induction n) (simp_all add: field_simps)

lemma sum_node_x:
  assumes "n > 0"
  shows "(\<Sum>k<n. node_x mw n k) / real n = mw / 2"
proof -
  have "node_x mw n k = nodeWidth * real k + (mw / 2 - (real n - 1) / 2 * nodeWidth)" for k
    by (simp add: node_x_def algebra_simps)
  then have "(\<Sum>k<n. node_x mw n k) =
             nodeWidth * (\<Sum>k<n. real k) + real n * (mw / 2 - (real n - 1) / 2 * nodeWidth)"
    by (simp add: sum.distrib sum_distrib_left)
  also have "\<dots> = real n * (mw / 2)"
    by (simp add: sum_indices algebra_simps)
  finally show ?thesis using assms by simp
qed

lemma layout_positions:
  "nodePositions (layout random (Some s) cw) =
   positions (place_levels (mapWidth cw) random (Object_entries (ps_levels s)) 0
      \<lparr> positions = Map.empty, maxX = 0, maxY = 0, draws = 0 \<rparr>)"
  by (simp add: layout_def Let_def)

text \<open>
  Claim C3. Course numbers are unique within a program's course list. Then, for a level of
  the program structure with its courses \<open>cs\<close> (there is at least one) and every
  container width \<open>cw\<close>, the course at index \<open>k\<close> has a position whose \<open>x\<close> is
  \<open>(k - (n - 1) / 2) * 120 + mapWidth / 2\<close> with \<open>n\<close> the number of courses of the
  level and \<open>mapWidth = cw * 0.7\<close>; the mean of the \<open>x\<close> coordinates of the level is
  \<open>mapWidth / 2\<close>; the only course of a level of one course is at \<open>mapWidth / 2\<close>.
  Coordinates are real numbers here, so the mean is exact.
\<close>

theorem level_centering:
  assumes ps: "programStructure programsData catalog sel = Some s"
    and uniq: "distinct (map course_number (ps_courses s))"
    and lvl: "(level, cs) \<in> set (ps_levels s)"
  shows "cs \<noteq> [] \<and>
    (\<forall>k<length cs. \<exists>p. nodePositions (layout random (Some s) cw) (course_number (cs ! k)) = Some p \<and>
        pos_x p = (real k - (real (length cs) - 1) / 2) * 120 + (cw * (7 / 10)) / 2) \<and>
    (\<Sum>k<length cs. pos_x (the (nodePositions (layout random (Some s) cw) (course_number (cs ! k)))))
        / real (length cs) = (cw * (7 / 10)) / 2 \<and>
    (length cs = 1 \<longrightarrow>
       pos_x (the (nodePositions (layout random (Some s) cw) (course_number (cs ! 0))))
         = (cw * (7 / 10)) / 2)"
proof -
  let ?E = "Object_entries (ps_levels s)"
  let ?np = "nodePositions (layout random (Some s) cw)"
  have lv: "ps_levels s = organize (ps_courses s)"
    using ps by (rule programStructure_levels)
  from lvl have ne: "cs \<noteq> []"
    unfolding lv by (rule organize_bucket)
  from lvl have "(level, cs) \<in> set ?E" by (simp add: set_Object_entries)
  then obtain i where i: "i < length ?E" "?E ! i = (level, cs)"
    by (auto simp: in_set_conv_nth)
  have dist: "distinct (map course_number (concat (map snd ?E)))"
    unfolding lv using uniq by (rule distinct_entries)
  have x: "\<exists>p. ?np (course_number (cs ! k)) = Some p \<and> pos_x p = node_x (mapWidth cw) (length cs) k"
    if "k < length cs" for k
  proof -
    from that i have "k < length (snd (?E ! i))" by simp
    from place_levels_exact [OF dist i(1) this, of "mapWidth cw" random 0
        "\<lparr> positions = Map.empty, maxX = 0, maxY = 0, draws = 0 \<rparr>"]
    show ?thesis by (auto simp: layout_positions i)
  qed
  have xs: "pos_x (the (?np (course_number (cs ! k)))) = node_x (mapWidth cw) (length cs) k"
    if "k < length cs" for k
    using x [OF that] by auto
  have formula: "node_x (mapWidth cw) n k = (real k - (real n - 1) / 2) * 120 + (cw * (7 / 10)) / 2"
    for n k
    by (simp add: node_x_def mapWidth_def nodeWidth_def)
  have "(\<Sum>k<length cs. pos_x (the (?np (course_number (cs ! k))))) =
        (\<Sum>k<length cs. node_x (mapWidth cw) (length cs) k)"
    by (rule sum.cong) (simp_all add: xs)
  then have mean: "(\<Sum>k<length cs. pos_x (the (?np (course_number (cs ! k))))) / real (length cs)
        = (cw * (7 / 10)) / 2"
    using ne sum_node_x [of "length cs" "mapWidth cw"] by (simp add: mapWidth_def)
  have single: "pos_x (the (?np (course_number (cs ! 0)))) = (cw * (7 / 10)) / 2"
    if "length cs = 1"
    using xs [of 0] that by (simp add: formula)
  from ne x mean single show ?thesis
    by (simp add: formula)
qed

theorem level_centering_witness:
  "programStructure ex_programs ex_catalog (js ''R'') = Some ex_structure_R \<and>
   distinct (map course_number (ps_courses ex_structure_R)) \<and>
   (Num 100, [ex_A100, ex_A150]) \<in> set (ps_levels ex_structure_R) \<and>
   (\<exists>p. nodePositions (layout ex_random (Some ex_structure_R) 1000) (js ''A 100'') = Some p \<and>
        pos_x p = 290) \<and>
   (\<exists>p. nodePositions (layout ex_random (Some ex_structure_R) 1000) (js ''A 150'') = Some p \<and>
        pos_x p = 410) \<and>
   (pos_x (the (nodePositions (layout ex_random (Some ex_structure_R) 1000) (js ''A 100''))) +
    pos_x (the (nodePositions (layout ex_random (Some ex_structure_R) 1000) (js ''A 150'')))) / 2 = 350"
proof -
  have d: "distinct (map course_number (ps_courses ex_structure_R))"
    by (simp add: ex_structure_R_def ex_A100_def ex_A150_def js_def)
  have l: "(Num 100, [ex_A100, ex_A150]) \<in> set (ps_levels ex_structure_R)"
    by (simp add: ex_structure_R_def)
  have two: "{..<2::nat} = {0, 1}" by auto
  from level_centering [OF ex_structure_R d l, of ex_random 1000] show ?thesis
    using ex_structure_R d l
    by (simp add: two ex_A100_def ex_A150_def less_Suc_eq all_conj_distrib imp_disjL js_def)
qed

section \<open>Vertical placement\<close>

lemma map_insort_key:
  "map f (insort_key (\<lambda>e. g (f e)) x xs) = insort_key g (f x) (map f xs)"
  by (induction xs) auto

lemma map_sort_key:
  "map f (sort_key (\<lambda>e. g (f e)) xs) = sort_key g (map f xs)"
  by (induction xs) (simp_all add: map_insort_key)

lemma num_of_Num: "num_of (Num n) = n"
  by (simp add: num_of_def)

lemma insort_key_Num:
  "insort_key num_of (Num n) (map Num ns) = map Num (insort n ns)"
  by (induction ns) (simp_all add: num_of_Num)

lemma sort_key_array_indices:
  "\<forall>k \<in> set ks. is_array_index k \<Longrightarrow> sort_key num_of ks = map Num (sort (map num_of ks))"
proof (induction ks)
  case Nil
  show ?case by simp
next
  case (Cons k ks)
  from Cons.prems obtain n where "k = Num n"
    by (cases k) (auto simp: is_array_index_def)
  with Cons show ?case
    by (simp add: insort_key_Num num_of_Num)
qed

lemma keys_Object_entries:
  "map fst (Object_entries obj) =
   map Num (sort (map num_of (filter is_array_index (map fst obj))))
   @ filter (\<lambda>k. \<not> is_array_index k) (map fst obj)"
proof -
  have "map fst (sort_key (\<lambda>e. num_of (fst e)) (filter (\<lambda>e. is_array_index (fst e)) obj)) =
        sort_key num_of (filter is_array_index (map fst obj))"
    by (simp add: map_sort_key filter_map comp_def)
  also have "\<dots> = map Num (sort (map num_of (filter is_array_index (map fst obj))))"
    by (rule sort_key_array_indices) simp
  finally show ?thesis
    by (simp add: Object_entries_def filter_map comp_def)
qed

lemma inj_on_num_of: "inj_on num_of {k. is_array_index k}"
  by (auto simp: inj_on_def is_array_index_def num_of_def split: jsnum.splits)

lemma ascending_array_indices:
  assumes "distinct ks"
  shows "sorted_wrt (<) (sort (map num_of (filter is_array_index ks)))"
proof -
  have "distinct (map num_of (filter is_array_index ks))"
    using assms by (auto simp: distinct_map intro: inj_on_subset [OF inj_on_num_of])
  then show ?thesis
    by (simp add: strict_sorted_iff)
qed

lemma level_of_cong: "course_number c = course_number d \<Longrightarrow> level_of c = level_of d"
  by (simp add: level_of_def numeric_part_def)

lemma jitter_bound:
  assumes "0 \<le> r" "r < 1"
  shows "b - 15 \<le> b + (r - 1 / 2) * verticalNoise" "b + (r - 1 / 2) * verticalNoise < b + 15"
  using assms by (simp_all add: verticalNoise_def)

lemma layout_dom:
  "dom (nodePositions (layout random (Some s) cw)) =
   course_number ` set (concat (map snd (ps_levels s)))"
proof -
  have "set (concat (map snd (Object_entries (ps_levels s)))) = set (concat (map snd (ps_levels s)))"
    by (metis mset_concat_entries set_mset_mset)
  then show ?thesis
    by (simp only: layout_positions place_levels_dom) simp
qed

text \<open>
  Claim C4, as the code has it. \<^verbatim>\<open>Object.entries\<close> enumerates the levels that are array
  indices (the integers from 0 to \<open>2^32 - 2\<close>) first, in strictly ascending numeric
  order, and the other levels (negative ones, larger ones and \<^verbatim>\<open>NaN\<close>) after them in the
  order of their first occurrence in the course list; the enumerated keys are distinct.
  The level at index \<open>i\<close> of this enumeration has \<open>baseY = i * 150 + 100\<close>, which
  increases strictly with \<open>i\<close>, and for random draws in \<open>[0, 1)\<close> every course of the
  list has a position whose \<open>y\<close> is within 15 of the \<open>baseY\<close> of the index of its level.
\<close>

theorem vertical_placement:
  assumes ps: "programStructure programsData catalog sel = Some s"
    and rnd: "\<forall>j. 0 \<le> random j \<and> random j < 1"
  shows
    "map fst (Object_entries (ps_levels s)) =
       map Num (sort (map num_of (filter is_array_index (first_seen (map level_of (ps_courses s))))))
       @ filter (\<lambda>k. \<not> is_array_index k) (first_seen (map level_of (ps_courses s))) \<and>
     sorted_wrt (<) (sort (map num_of (filter is_array_index (first_seen (map level_of (ps_courses s)))))) \<and>
     distinct (map fst (Object_entries (ps_levels s))) \<and>
     (\<forall>c \<in> set (ps_courses s). \<exists>i p.
         i < length (Object_entries (ps_levels s)) \<and>
         fst (Object_entries (ps_levels s) ! i) = level_of c \<and>
         nodePositions (layout random (Some s) cw) (course_number c) = Some p \<and>
         (real i * 150 + 100) - 15 \<le> pos_y p \<and> pos_y p \<le> (real i * 150 + 100) + 15) \<and>
     (\<forall>i. baseY i = real i * 150 + 100) \<and>
     (\<forall>i j. i < j \<longrightarrow> baseY i < baseY j)"
proof -
  let ?E = "Object_entries (ps_levels s)"
  let ?np = "nodePositions (layout random (Some s) cw)"
  have lv: "ps_levels s = organize (ps_courses s)"
    using ps by (rule programStructure_levels)
  have keys: "map fst ?E =
       map Num (sort (map num_of (filter is_array_index (first_seen (map level_of (ps_courses s))))))
       @ filter (\<lambda>k. \<not> is_array_index k) (first_seen (map level_of (ps_courses s)))"
    by (simp add: keys_Object_entries lv keys_organize)
  have asc: "sorted_wrt (<) (sort (map num_of (filter is_array_index (first_seen (map level_of (ps_courses s))))))"
    by (rule ascending_array_indices) (rule distinct_first_seen)
  have "mset (map fst ?E) = mset (map fst (ps_levels s))"
    by (simp add: mset_Object_entries)
  from mset_eq_imp_distinct_iff [OF this] have dist: "distinct (map fst ?E)"
    by (simp add: lv keys_organize distinct_first_seen)
  have base: "baseY i = real i * 150 + 100" for i
    by (simp add: baseY_def levelHeight_def)
  have node: "\<exists>i p. i < length ?E \<and> fst (?E ! i) = level_of c \<and>
         ?np (course_number c) = Some p \<and>
         (real i * 150 + 100) - 15 \<le> pos_y p \<and> pos_y p \<le> (real i * 150 + 100) + 15"
    if c: "c \<in> set (ps_courses s)" for c
  proof -
    have "set (concat (map snd (ps_levels s))) = set (ps_courses s)"
      unfolding lv by (metis mset_organize set_mset_mset)
    with c have "course_number c \<in> dom ?np"
      by (simp add: layout_dom)
    then obtain p where p: "?np (course_number c) = Some p" by auto
    then have "positions (place_levels (mapWidth cw) random ?E 0
        \<lparr> positions = Map.empty, maxX = 0, maxY = 0, draws = 0 \<rparr>) (course_number c) = Some p"
      by (simp add: layout_positions)
    from place_levels_y [OF this] obtain i j where i: "i < length ?E"
      and mem: "course_number c \<in> course_number ` set (snd (?E ! i))"
      and y: "pos_y p = baseY i + (random j - 1 / 2) * verticalNoise"
      by auto
    from mem obtain d where d: "d \<in> set (snd (?E ! i))" "course_number d = course_number c"
      by auto
    from i have "?E ! i \<in> set (organize (ps_courses s))"
      by (metis lv nth_mem set_Object_entries)
    then have "(fst (?E ! i), snd (?E ! i)) \<in> set (organize (ps_courses s))" by simp
    from organize_bucket(1) [OF this] d(1) have "level_of d = fst (?E ! i)" by simp
    with d(2) have key: "fst (?E ! i) = level_of c"
      using level_of_cong by metis
    from rnd have "0 \<le> random j" "random j < 1" by simp_all
    from jitter_bound [OF this, of "baseY i"] y
    have "baseY i - 15 \<le> pos_y p" "pos_y p \<le> baseY i + 15" by simp_all
    with i key p show ?thesis
      unfolding base by blast
  qed
  have mono: "baseY i < baseY j" if "i < j" for i j
    using that by (simp add: base)
  from keys asc dist node base mono show ?thesis by blast
qed

theorem vertical_placement_witness:
  "programStructure ex_programs ex_catalog (js ''P'') = Some ex_structure \<and>
   map fst (Object_entries (ps_levels ex_structure)) = [Num 100, Num 200, Num 300] \<and>
   ex_A200 \<in> set (ps_courses ex_structure) \<and>
   (\<exists>i p. i < length (Object_entries (ps_levels ex_structure)) \<and>
       fst (Object_entries (ps_levels ex_structure) ! i) = level_of ex_A200 \<and>
       nodePositions (layout ex_random (Some ex_structure) 1000) (course_number ex_A200) = Some p \<and>
       (real i * 150 + 100) - 15 \<le> pos_y p \<and> pos_y p \<le> (real i * 150 + 100) + 15) \<and>
   baseY 0 < baseY 1"
proof -
  have r: "\<forall>j. 0 \<le> ex_random j \<and> ex_random j < 1"
    by (simp add: ex_random_def)
  have c: "ex_A200 \<in> set (ps_courses ex_structure)"
    by (simp add: ex_structure_def)
  have k: "map fst (Object_entries (ps_levels ex_structure)) = [Num 100, Num 200, Num 300]"
    by (simp add: Object_entries_def ex_structure_def is_array_index_def num_of_def)
  note T = vertical_placement [OF ex_structure_P r, of 1000]
  from T c have "\<exists>i p. i < length (Object_entries (ps_levels ex_structure)) \<and>
       fst (Object_entries (ps_levels ex_structure) ! i) = level_of ex_A200 \<and>
       nodePositions (layout ex_random (Some ex_structure) 1000) (course_number ex_A200) = Some p \<and>
       (real i * 150 + 100) - 15 \<le> pos_y p \<and> pos_y p \<le> (real i * 150 + 100) + 15"
    by blast
  moreover from T have "baseY 0 < baseY 1" by simp
  ultimately show ?thesis
    using ex_structure_P c k by blast
qed

text \<open>
  The claim as stated fails where a level is not an array index: of the levels \<open>-100\<close>
  and \<open>100\<close> the larger one is enumerated first and gets the smaller \<open>baseY\<close>.
\<close>

theorem vertical_placement_counterexample:
  "level_of ex_Aneg50 = Num (- 100) \<and> level_of ex_A150 = Num 100 \<and>
   nodePositions (layout ex_random (programStructure ex_programs ex_catalog (js ''N'')) 1000) (js ''A -50'')
     = Some \<lparr> pos_x = 350, pos_y = 250 \<rparr> \<and>
   nodePositions (layout ex_random (programStructure ex_programs ex_catalog (js ''N'')) 1000) (js ''A 150'')
     = Some \<lparr> pos_x = 350, pos_y = 100 \<rparr>"
  by (simp add: layout_def structure_defs parse_defs ex_random_def Object_entries_def
        ex_Aneg50_def ex_A150_def is_array_index_def num_of_def
        mapWidth_def baseY_def levelHeight_def node_x_def nodeWidth_def verticalNoise_def)

section \<open>The extent of the canvas\<close>

lemma programStructure_None_iff:
  "programStructure programsData catalog sel = None \<longleftrightarrow>
   sel = [] \<or> sel \<notin> program ` set programsData"
proof -
  have "find (\<lambda>p. program p = sel) programsData = None \<longleftrightarrow> sel \<notin> program ` set programsData"
    by (auto simp: find_None_iff)
  then show ?thesis
    by (cases "find (\<lambda>p. program p = sel) programsData")
       (auto simp: programStructure_def Let_def)
qed

text \<open>
  Claim C7, as the code has it. The fixed extent of width 1000 and height 800 is
  returned when there is no program structure: no program is selected, or the selected
  name is not in the program data. For a selected program whose course list is empty
  the loops run over no level, and the extent is the larger of the map width and 100 by
  100.
\<close>

theorem extent_without_courses:
  "(sel = [] \<or> sel \<notin> program ` set programsData \<longrightarrow>
      layout random (programStructure programsData catalog sel) cw =
        \<lparr> nodePositions = Map.empty, svgDimensions = \<lparr> width = 1000, height = 800 \<rparr> \<rparr>) \<and>
   (programStructure programsData catalog sel = Some s \<and> ps_courses s = [] \<longrightarrow>
      layout random (Some s) cw =
        \<lparr> nodePositions = Map.empty,
          svgDimensions = \<lparr> width = max (cw * (7 / 10)) 100, height = 100 \<rparr> \<rparr>)"
proof (intro conjI impI)
  assume "sel = [] \<or> sel \<notin> program ` set programsData"
  then have "programStructure programsData catalog sel = None"
    by (simp only: programStructure_None_iff)
  then show "layout random (programStructure programsData catalog sel) cw =
        \<lparr> nodePositions = Map.empty, svgDimensions = \<lparr> width = 1000, height = 800 \<rparr> \<rparr>"
    by (simp add: layout_def)
next
  assume a: "programStructure programsData catalog sel = Some s \<and> ps_courses s = []"
  then have "ps_levels s = organize (ps_courses s)"
    using programStructure_levels by blast
  with a have "ps_levels s = []" by (simp add: organize_def)
  then show "layout random (Some s) cw =
        \<lparr> nodePositions = Map.empty,
          svgDimensions = \<lparr> width = max (cw * (7 / 10)) 100, height = 100 \<rparr> \<rparr>"
    by (simp add: layout_def Object_entries_def mapWidth_def)
qed

theorem extent_without_courses_witness:
  "layout ex_random (programStructure ex_programs ex_catalog (js ''Z'')) 1000 =
     \<lparr> nodePositions = Map.empty, svgDimensions = \<lparr> width = 1000, height = 800 \<rparr> \<rparr> \<and>
   programStructure ex_programs ex_catalog (js ''Empty'') = Some ex_structure_Empty \<and>
   ps_courses ex_structure_Empty = [] \<and>
   layout ex_random (Some ex_structure_Empty) 1000 =
     \<lparr> nodePositions = Map.empty, svgDimensions = \<lparr> width = 700, height = 100 \<rparr> \<rparr>"
proof -
  have z: "js ''Z'' = [] \<or> js ''Z'' \<notin> program ` set ex_programs"
    by (simp add: ex_programs_def js_def)
  have e: "ps_courses ex_structure_Empty = []"
    by (simp add: ex_structure_Empty_def)
  from extent_without_courses [of "js ''Z''" ex_programs ex_random ex_catalog 1000] z
  have "layout ex_random (programStructure ex_programs ex_catalog (js ''Z'')) 1000 =
     \<lparr> nodePositions = Map.empty, svgDimensions = \<lparr> width = 1000, height = 800 \<rparr> \<rparr>"
    by blast
  moreover
  from extent_without_courses [of "js ''Empty''" ex_programs ex_random ex_catalog 1000 ex_structure_Empty]
    ex_structure_Empty e
  have "layout ex_random (Some ex_structure_Empty) 1000 =
     \<lparr> nodePositions = Map.empty, svgDimensions = \<lparr> width = 700, height = 100 \<rparr> \<rparr>"
    by simp
  ultimately show ?thesis
    using ex_structure_Empty e by blast
qed

text \<open>
  The claim as stated fails: the selected program \<open>Empty\<close> has no course, and at the
  container width 1000 the extent is 700 by 100, not 1000 by 800.
\<close>

theorem extent_without_courses_counterexample:
  "courses (ex_programs ! 1) = [] \<and> program (ex_programs ! 1) = js ''Empty'' \<and>
   svgDimensions (layout ex_random (programStructure ex_programs ex_catalog (js ''Empty'')) 1000) =
     \<lparr> width = 700, height = 100 \<rparr> \<and>
   svgDimensions (layout ex_random (programStructure ex_programs ex_catalog (js ''Empty'')) 1000) \<noteq>
     \<lparr> width = 1000, height = 800 \<rparr>"
  by (simp add: programStructure_def ex_programs_def organize_def layout_def
        Object_entries_def mapWidth_def js_def)

section \<open>Courses without a numeric part\<close>

text \<open>
  Claim C8. Classification and layout are total functions on course lists: no branch
  of them raises an error. A course of the selected program whose numeric part parses
  to \<^verbatim>\<open>NaN\<close> is in the bucket of the key \<^verbatim>\<open>NaN\<close> and in no other bucket, and the layout
  gives it a position.
\<close>

theorem unparseable_fallback_bucket:
  assumes "programStructure programsData catalog sel = Some s"
    and "c \<in> set (ps_courses s)"
    and "numeric_part c = NaN"
  shows "c \<in> set (bucket_of (ps_levels s) NaN) \<and>
         (\<forall>k. c \<in> set (bucket_of (ps_levels s) k) \<longrightarrow> k = NaN) \<and>
         course_number c \<in> dom (nodePositions (layout random (Some s) cw))"
proof -
  have lv: "ps_levels s = organize (ps_courses s)"
    using assms(1) by (rule programStructure_levels)
  have l: "level_of c = NaN"
    using assms(3) by (simp add: level_of_def floor_hundred_def)
  have "set (concat (map snd (ps_levels s))) = set (ps_courses s)"
    unfolding lv by (metis mset_organize set_mset_mset)
  with assms(2) have "course_number c \<in> dom (nodePositions (layout random (Some s) cw))"
    by (simp add: layout_dom)
  with assms(2) l show ?thesis
    by (auto simp: lv bucket_of_organize)
qed

theorem unparseable_fallback_bucket_witness:
  "programStructure ex_programs ex_catalog (js ''Q'') = Some ex_structure_Q \<and>
   ex_SEM \<in> set (ps_courses ex_structure_Q) \<and> numeric_part ex_SEM = NaN \<and>
   ex_SEM \<in> set (bucket_of (ps_levels ex_structure_Q) NaN) \<and>
   js ''A SEM'' \<in> dom (nodePositions (layout ex_random (Some ex_structure_Q) 1000))"
proof -
  have c: "ex_SEM \<in> set (ps_courses ex_structure_Q)"
    by (simp add: ex_structure_Q_def)
  from unparseable_fallback_bucket [OF ex_structure_Q c numeric_part_SEM, of ex_random 1000]
  show ?thesis
    using ex_structure_Q c numeric_part_SEM by (simp add: ex_SEM_def)
qed

section \<open>Edge emphasis\<close>

lemma str_includes_sublist: "str_includes s t \<longleftrightarrow> sublist t s"
  by (induction s) (simp_all add: sublist_Cons_right)

lemma line_id_edge_of: "line_id (edge_of np prereq c) = prereq @ js ''-'' @ course_number c"
  by (simp add: edge_of_def)

text \<open>
  Claim C5. A course is selected when \<^verbatim>\<open>selectedNode\<close> is truthy, that is, holds a course
  number that is not the empty string. Then the arrowed line of a prerequisite and a
  course has the emphasised opacity 2 exactly when the selected course number is a
  contiguous substring of the line's id \<open>prereq-courseNumber\<close>, and the dimmed opacity
  0.1 otherwise; the plain edge has the emphasised opacity 1 exactly when the selected
  course number is equal to the course number or to the prerequisite, and the dimmed
  opacity 0.2 otherwise.
\<close>

theorem edge_emphasis:
  assumes "sel = Some sn" and "sn \<noteq> []"
  shows "(arrow_opacity sel (edge_of np prereq c) = 2 \<longleftrightarrow>
            sublist sn (prereq @ js ''-'' @ course_number c)) \<and>
         (arrow_opacity sel (edge_of np prereq c) \<noteq> 2 \<longleftrightarrow>
            arrow_opacity sel (edge_of np prereq c) = 1 / 10) \<and>
         (plain_opacity sel c prereq = 1 \<longleftrightarrow> sn = course_number c \<or> sn = prereq) \<and>
         (plain_opacity sel c prereq \<noteq> 1 \<longleftrightarrow> plain_opacity sel c prereq = 2 / 10)"
  using assms
  by (auto simp: arrow_opacity_def plain_opacity_def truthy_def line_id_edge_of
        str_includes_sublist)

theorem edge_emphasis_witness:
  "arrow_opacity (Some (js ''A 200'')) (edge_of ex_positions (js ''A 100'') ex_A200) = 2 \<and>
   sublist (js ''A 200'') (js ''A 100'' @ js ''-'' @ course_number ex_A200) \<and>
   plain_opacity (Some (js ''A 200'')) ex_A200 (js ''A 100'') = 1 \<and>
   plain_opacity (Some (js ''A 300'')) ex_A200 (js ''A 100'') = 2 / 10"
proof -
  have s: "sublist (js ''A 200'') (js ''A 100'' @ js ''-'' @ course_number ex_A200)"
    by (simp add: str_includes_sublist [symmetric] ex_A200_def js_def)
  have n2: "js ''A 200'' \<noteq> []" and n3: "js ''A 300'' \<noteq> []" by (simp_all add: js_def)
  have eq2: "js ''A 200'' = course_number ex_A200 \<or> js ''A 200'' = js ''A 100''"
    by (simp add: ex_A200_def)
  have ne3: "\<not> (js ''A 300'' = course_number ex_A200 \<or> js ''A 300'' = js ''A 100'')"
    by (simp add: ex_A200_def js_def)
  note T2 = edge_emphasis [OF refl n2, of ex_positions "js ''A 100''" ex_A200]
  note T3 = edge_emphasis [OF refl n3, of ex_positions "js ''A 100''" ex_A200]
  from T2 s have "arrow_opacity (Some (js ''A 200'')) (edge_of ex_positions (js ''A 100'') ex_A200) = 2"
    by blast
  moreover from T2 eq2 have "plain_opacity (Some (js ''A 200'')) ex_A200 (js ''A 100'') = 1"
    by blast
  moreover from T3 ne3 have "plain_opacity (Some (js ''A 300'')) ex_A200 (js ''A 100'') = 2 / 10"
    by blast
  ultimately show ?thesis using s by blast
qed

section \<open>The viewport\<close>

lemma step_idle:
  assumes "\<not> isDragging s" and "\<not> primary_press e"
  shows "\<not> isDragging (step e s) \<and> offset (step e s) = offset s"
  using assms
  by (cases e)
     (auto simp: primary_press_def handleMouseDown_def handleMouseMove_def handleMouseUp_def)

lemma run_idle:
  assumes "\<not> isDragging s" and "\<forall>e \<in> set es. \<not> primary_press e"
  shows "offset (run es s) = offset s"
proof -
  have "\<not> isDragging (run es s) \<and> offset (run es s) = offset s"
    using assms
  proof (induction es arbitrary: s)
    case Nil
    then show ?case by (simp add: run_def)
  next
    case (Cons e es)
    from Cons.prems have i: "\<not> isDragging (step e s)" and o: "offset (step e s) = offset s"
      using step_idle [of s e] by simp_all
    from Cons.prems have "\<forall>e \<in> set es. \<not> primary_press e" by simp
    from Cons.IH [OF i this] o show ?case
      by (simp add: run_def)
  qed
  then show ?thesis ..
qed

text \<open>
  Claim C6. From the initial state (not dragging, offset \<open>(0, 0)\<close>) a press of button 0
  at \<open>(100, 100)\<close> followed by a move to \<open>(150, 130)\<close> gives the offset \<open>(50, 30)\<close>. In
  every state a press of button 0 stores the anchor \<open>pressPos - offset\<close>, and a move
  that follows gives the offset \<open>pointerPos - anchor\<close>. After a release, or after the
  pointer has left the surface, every sequence of events without a press of button 0
  leaves the offset as it was.
\<close>

theorem drag_offset:
  "offset (run [MouseDown \<lparr> button = 0, clientX = 100, clientY = 100 \<rparr>,
                MouseMove \<lparr> button = 0, clientX = 150, clientY = 130 \<rparr>] initial_state)
     = \<lparr> vx = 50, vy = 30 \<rparr> \<and>
   (button d = 0 \<longrightarrow>
      dragStart (step (MouseDown d) s) =
        \<lparr> vx = clientX d - vx (offset s), vy = clientY d - vy (offset s) \<rparr> \<and>
      offset (run [MouseDown d, MouseMove m] s) =
        \<lparr> vx = clientX m - vx (dragStart (step (MouseDown d) s)),
          vy = clientY m - vy (dragStart (step (MouseDown d) s)) \<rparr>) \<and>
   ((\<forall>e \<in> set es. \<not> primary_press e) \<longrightarrow>
      offset (run es (step MouseUp s)) = offset s \<and>
      offset (run es (step MouseLeave s)) = offset s)"
proof (intro conjI impI)
  show "offset (run [MouseDown \<lparr> button = 0, clientX = 100, clientY = 100 \<rparr>,
                MouseMove \<lparr> button = 0, clientX = 150, clientY = 130 \<rparr>] initial_state)
     = \<lparr> vx = 50, vy = 30 \<rparr>"
    by (simp add: run_def initial_state_def handleMouseDown_def handleMouseMove_def)
next
  assume "button d = 0"
  then show "dragStart (step (MouseDown d) s) =
        \<lparr> vx = clientX d - vx (offset s), vy = clientY d - vy (offset s) \<rparr>"
    and "offset (run [MouseDown d, MouseMove m] s) =
        \<lparr> vx = clientX m - vx (dragStart (step (MouseDown d) s)),
          vy = clientY m - vy (dragStart (step (MouseDown d) s)) \<rparr>"
    by (simp_all add: run_def handleMouseDown_def handleMouseMove_def)
next
  assume es: "\<forall>e \<in> set es. \<not> primary_press e"
  have "\<not> isDragging (step MouseUp s)" "\<not> isDragging (step MouseLeave s)"
    by (simp_all add: handleMouseUp_def)
  from run_idle [OF this(1) es] run_idle [OF this(2) es]
  show "offset (run es (step MouseUp s)) = offset s"
    and "offset (run es (step MouseLeave s)) = offset s"
    by (simp_all add: handleMouseUp_def)
qed

theorem drag_offset_witness:
  "offset (run [MouseDown \<lparr> button = 0, clientX = 100, clientY = 100 \<rparr>,
                MouseMove \<lparr> button = 0, clientX = 150, clientY = 130 \<rparr>,
                MouseUp,
                MouseMove \<lparr> button = 0, clientX = 400, clientY = 10 \<rparr>,
                MouseDown \<lparr> button = 2, clientX = 7, clientY = 7 \<rparr>,
                MouseMove \<lparr> button = 0, clientX = 0, clientY = 0 \<rparr>] initial_state)
     = \<lparr> vx = 50, vy = 30 \<rparr> \<and>
   dragStart (step (MouseDown \<lparr> button = 0, clientX = 100, clientY = 100 \<rparr>) initial_state)
     = \<lparr> vx = 100, vy = 100 \<rparr>"
proof -
  let ?d = "\<lparr> button = 0, clientX = 100, clientY = 100 \<rparr>"
  let ?m = "\<lparr> button = 0, clientX = 150, clientY = 130 \<rparr>"
  let ?es = "[MouseMove \<lparr> button = 0, clientX = 400, clientY = 10 \<rparr>,
              MouseDown \<lparr> button = 2, clientX = 7, clientY = 7 \<rparr>,
              MouseMove \<lparr> button = 0, clientX = 0, clientY = 0 \<rparr>]"
  have es: "\<forall>e \<in> set ?es. \<not> primary_press e"
    by (simp add: primary_press_def)
  have b: "button ?d = 0" by simp
  note T1 = drag_offset [of ?d initial_state ?m ?es]
  note T2 = drag_offset [of ?d "run [MouseDown ?d, MouseMove ?m] initial_state" ?m ?es]
  from T1 b have anchor: "dragStart (step (MouseDown ?d) initial_state) =
      \<lparr> vx = clientX ?d - vx (offset initial_state), vy = clientY ?d - vy (offset initial_state) \<rparr>"
    and moved: "offset (run [MouseDown ?d, MouseMove ?m] initial_state) =
      \<lparr> vx = clientX ?m - vx (dragStart (step (MouseDown ?d) initial_state)),
        vy = clientY ?m - vy (dragStart (step (MouseDown ?d) initial_state)) \<rparr>"
    by blast+
  from anchor have a: "dragStart (step (MouseDown ?d) initial_state) = \<lparr> vx = 100, vy = 100 \<rparr>"
    by (simp add: initial_state_def)
  from moved have o: "offset (run [MouseDown ?d, MouseMove ?m] initial_state) = \<lparr> vx = 50, vy = 30 \<rparr>"
    unfolding a by simp
  from T2 es have "offset (run ?es (step MouseUp (run [MouseDown ?d, MouseMove ?m] initial_state)))
      = offset (run [MouseDown ?d, MouseMove ?m] initial_state)"
    by blast
  with o have "offset (run ?es (step MouseUp (run [MouseDown ?d, MouseMove ?m] initial_state)))
      = \<lparr> vx = 50, vy = 30 \<rparr>"
    by simp
  then show ?thesis
    using a by (simp add: run_def)
qed

section \<open>Program change\<close>

lemma run_program_changes: "offset (run (map ProgramChange vs) s) = offset s"
  by (induction vs arbitrary: s) (simp_all add: run_def)

text \<open>
  Claim C9. The handler of a program change writes the program selection and nothing
  else, so the offset, and with it the drag state, the selected node and the container
  width, are as before, also after any number of program changes. The offset is
  \<open>(0, 0)\<close> in the initial state of the component, and an event changes it only if it is
  a pointer move in a state that is dragging.
\<close>

theorem program_change_keeps_offset:
  "step (ProgramChange v) s = s\<lparr> selectedProgram := v \<rparr> \<and>
   offset (step (ProgramChange v) s) = offset s \<and>
   isDragging (step (ProgramChange v) s) = isDragging s \<and>
   dragStart (step (ProgramChange v) s) = dragStart s \<and>
   selectedNode (step (ProgramChange v) s) = selectedNode s \<and>
   containerWidth (step (ProgramChange v) s) = containerWidth s \<and>
   offset (run (map ProgramChange vs) s) = offset s \<and>
   offset initial_state = \<lparr> vx = 0, vy = 0 \<rparr> \<and>
   (offset (step e s) \<noteq> offset s \<longrightarrow> (\<exists>m. e = MouseMove m) \<and> isDragging s)"
proof -
  have "(\<exists>m. e = MouseMove m) \<and> isDragging s" if "offset (step e s) \<noteq> offset s"
    using that
    by (cases e)
       (auto simp: handleMouseDown_def handleMouseMove_def handleMouseUp_def
          split: if_splits)
  then show ?thesis
    by (simp add: run_program_changes initial_state_def)
qed

theorem program_change_keeps_offset_witness:
  "offset (step (ProgramChange (js ''Q''))
      (run [MouseDown \<lparr> button = 0, clientX = 100, clientY = 100 \<rparr>,
            MouseMove \<lparr> button = 0, clientX = 150, clientY = 130 \<rparr>] initial_state))
     = \<lparr> vx = 50, vy = 30 \<rparr> \<and>
   offset (step (MouseMove \<lparr> button = 0, clientX = 5, clientY = 5 \<rparr>) initial_state)
     = offset initial_state"
proof -
  let ?s = "run [MouseDown \<lparr> button = 0, clientX = 100, clientY = 100 \<rparr>,
            MouseMove \<lparr> button = 0, clientX = 150, clientY = 130 \<rparr>] initial_state"
  let ?e = "MouseMove \<lparr> button = 0, clientX = 5, clientY = 5 \<rparr>"
  have "offset ?s = \<lparr> vx = 50, vy = 30 \<rparr>"
    by (simp add: run_def initial_state_def handleMouseDown_def handleMouseMove_def)
  with program_change_keeps_offset [of "js ''Q''" ?s "[]" ?e]
  have "offset (step (ProgramChange (js ''Q'')) ?s) = \<lparr> vx = 50, vy = 30 \<rparr>"
    by simp
  moreover have "\<not> isDragging initial_state"
    by (simp add: initial_state_def)
  with program_change_keeps_offset [of "js ''Q''" initial_state "[]" ?e]
  have "offset (step ?e initial_state) = offset initial_state"
    by blast
  ultimately show ?thesis by blast
qed

section \<open>The details panel after a program change\<close>

lemma find_read_found:
  "find_guarded ps sn \<noteq> None \<Longrightarrow> \<exists>c. find_guarded ps sn = Some c \<and> find_read ps sn f = Inr (f c)"
  by (auto simp: find_guarded_def find_read_def split: option.splits)

lemma prereq_block_found:
  "find_guarded ps sn \<noteq> None \<Longrightarrow> \<exists>pv. prereq_block ps np sn = Inr pv"
  by (auto simp: find_guarded_def prereq_block_def Let_def split: option.splits)

lemma details_panel_total: "details_panel sel ps np \<noteq> Inl e"
proof (cases "truthy sel \<and> find_guarded ps (the sel) \<noteq> None")
  case True
  then have g: "find_guarded ps (the sel) \<noteq> None" by simp
  from find_read_found [OF g, of course_title] find_read_found [OF g, of credits]
    prereq_block_found [OF g, of np]
  show ?thesis using True by (auto simp: details_panel_def)
next
  case False
  then show ?thesis by (auto simp: details_panel_def)
qed

lemma find_guarded_absent:
  assumes "\<forall>c \<in> set (case ps of None \<Rightarrow> [] | Some t \<Rightarrow> ps_courses t). course_number c \<noteq> sn"
  shows "find_guarded ps sn = None"
  using assms by (auto simp: find_guarded_def find_None_iff split: option.splits)

text \<open>
  Claim C10. A program change leaves the selected course as it is. The details panel
  never fails: every read of a property of the selected course comes after the guard
  that looks the course up in the active course list has found it. If the selected
  course number is not in the course list of the program that is now active (or there
  is no program structure), the panel shows the hint of the state without a selection.
\<close>

theorem details_after_program_change:
  "selectedNode (step (ProgramChange v) s) = selectedNode s \<and>
   (\<forall>e. details_panel sel ps np \<noteq> Inl e) \<and>
   (selectedNode s = Some sn \<and>
    (\<forall>c \<in> set (case programStructure programsData catalog (selectedProgram (step (ProgramChange v) s)) of
                   None \<Rightarrow> [] | Some t \<Rightarrow> ps_courses t). course_number c \<noteq> sn) \<longrightarrow>
      details_panel (selectedNode (step (ProgramChange v) s))
        (programStructure programsData catalog (selectedProgram (step (ProgramChange v) s))) np
        = Inr Hint)"
proof -
  have "details_panel (selectedNode (step (ProgramChange v) s))
        (programStructure programsData catalog (selectedProgram (step (ProgramChange v) s))) np
        = Inr Hint"
    if "selectedNode s = Some sn"
      and "\<forall>c \<in> set (case programStructure programsData catalog (selectedProgram (step (ProgramChange v) s)) of
                   None \<Rightarrow> [] | Some t \<Rightarrow> ps_courses t). course_number c \<noteq> sn"
    using that(1) find_guarded_absent [OF that(2)]
    by (simp add: details_panel_def)
  then show ?thesis
    using details_panel_total by simp
qed

theorem details_after_program_change_witness:
  "selectedNode (step (ProgramChange (js ''Q'')) (step (NodeEnter (js ''A 300'')) initial_state))
     = Some (js ''A 300'') \<and>
   programStructure ex_programs ex_catalog (js ''Q'') = Some ex_structure_Q \<and>
   details_panel (Some (js ''A 300'')) (Some ex_structure_Q) ex_positions = Inr Hint"
proof -
  let ?s = "step (NodeEnter (js ''A 300'')) initial_state"
  have sel: "selectedNode ?s = Some (js ''A 300'')" by simp
  have absent: "\<forall>c \<in> set (case programStructure ex_programs ex_catalog
                     (selectedProgram (step (ProgramChange (js ''Q'')) ?s)) of
                   None \<Rightarrow> [] | Some t \<Rightarrow> ps_courses t). course_number c \<noteq> js ''A 300''"
    by (simp add: ex_structure_Q) (simp add: ex_structure_Q_def ex_A100_def ex_SEM_def js_def)
  from details_after_program_change [of "js ''Q''" ?s "Some (js ''A 300'')" "Some ex_structure_Q"
      ex_positions "js ''A 300''" ex_programs ex_catalog] sel absent
  have "details_panel (selectedNode (step (ProgramChange (js ''Q'')) ?s))
        (programStructure ex_programs ex_catalog (selectedProgram (step (ProgramChange (js ''Q'')) ?s)))
        ex_positions = Inr Hint"
    by blast
  then show ?thesis
    using ex_structure_Q by simp
qed

end
